theory Spec2Isabelle
  imports Main
begin

section \<open>The document tree under a table\<close>

text \<open>
  The table editor of \<^verbatim>\<open>goog-table.js\<close> works on a DOM table. The part of the DOM it reads
  and writes is modelled as a value: a table has a list of bodies (\<^verbatim>\<open>tBodies\<close>), a body is
  the list of its child nodes, a child node of a body (a row node when its tag is
  \<^verbatim>\<open>TR\<close>) has a list of child nodes, and a child node of a row (a cell node when its tag is
  \<^verbatim>\<open>TD\<close> or \<^verbatim>\<open>TH\<close>) has the two span attributes and its own child nodes, the cell's
  content. A JavaScript reference to a node is the node's identifier \<open>nid\<close>; a node that
  has been removed from the tree has no parent and is no longer part of the value.
\<close>

type_synonym node_ref = nat

text \<open>Content nodes; \<open>nodeType\<close> is 1 for an element, 3 for a text node, 8 for a comment.\<close>

datatype content = TextNode string | ElementNode string "content list" | CommentNode string

fun nodeType :: "content \<Rightarrow> nat" where
  "nodeType (ElementNode t cs) = 1"
| "nodeType (TextNode s) = 3"
| "nodeType (CommentNode s) = 8"

record dom_node =
  nid :: node_ref
  tagName :: string
  colSpanAttr :: "nat option"
  rowSpanAttr :: "nat option"
  childNodes :: "content list"

record dom_tr =
  tr_nid :: node_ref
  tr_tagName :: string
  tr_childNodes :: "dom_node list"

record dom_table =
  tBodies :: "dom_tr list list"

text \<open>
  The DOM properties \<^verbatim>\<open>td.colSpan\<close> and \<^verbatim>\<open>td.rowSpan\<close> reflect the attribute as an
  unsigned number, 1 when the attribute is absent.
\<close>

definition colSpan_prop :: "dom_node \<Rightarrow> nat" where
  "colSpan_prop n = (case colSpanAttr n of None \<Rightarrow> 1 | Some v \<Rightarrow> v)"

definition rowSpan_prop :: "dom_node \<Rightarrow> nat" where
  "rowSpan_prop n = (case rowSpanAttr n of None \<Rightarrow> 1 | Some v \<Rightarrow> v)"

section \<open>Cells, rows and the table object\<close>

text \<open>
  Numbers of the JavaScript objects are integers. A sparse JavaScript array is a list of
  options, \<open>None\<close> for a hole; reading an array outside its bounds gives
  \<^verbatim>\<open>undefined\<close>, here \<open>None\<close>.
\<close>

record GoogTableCell =
  element :: node_ref
  colSpan :: int
  rowSpan :: int
  startRow :: int
  startCol :: int
  endCol :: int
  endRow :: int

record GoogTableRow =
  index :: int
  row_element :: "node_ref option"
  columns :: "GoogTableCell option list"

record GoogTable =
  table_element :: dom_table
  rows :: "GoogTableRow list"

datatype error = TypeError | NotFoundError

definition nth_js :: "'a list \<Rightarrow> int \<Rightarrow> 'a option" where
  "nth_js xs i = (if 0 \<le> i \<and> nat i < length xs then Some (xs ! nat i) else None)"

text \<open>\<^verbatim>\<open>parseInt(v, 10) || 1\<close> on an unsigned number: 0 is falsy and becomes 1.\<close>

definition parseInt_or_1 :: "nat \<Rightarrow> int" where
  "parseInt_or_1 v = (if v = 0 then 1 else int v)"

definition updateCoordinates :: "GoogTableCell \<Rightarrow> GoogTableCell" where
  "updateCoordinates c =
     c\<lparr>endCol := startCol c + colSpan c - 1, endRow := startRow c + rowSpan c - 1\<rparr>"

definition new_GoogTableCell :: "dom_node \<Rightarrow> int \<Rightarrow> int \<Rightarrow> GoogTableCell" where
  "new_GoogTableCell td sr sc =
     updateCoordinates
       \<lparr>element = nid td, colSpan = parseInt_or_1 (colSpan_prop td),
        rowSpan = parseInt_or_1 (rowSpan_prop td), startRow = sr, startCol = sc,
        endCol = 0, endRow = 0\<rparr>"

definition new_GoogTableRow :: "node_ref option \<Rightarrow> int \<Rightarrow> GoogTableRow" where
  "new_GoogTableRow trElement rowIndex =
     \<lparr>index = rowIndex, row_element = trElement, columns = []\<rparr>"

section \<open>refresh\<close>

definition getChildCellElements :: "dom_tr \<Rightarrow> dom_node list" where
  "getChildCellElements tr =
     filter (\<lambda>cell. tagName cell = ''TD'' \<or> tagName cell = ''TH'') (tr_childNodes tr)"

text \<open>
  The loop \<^verbatim>\<open>while (existingRow && existingRow.columns[columnNum]) columnNum++\<close>,
  for an existing row with columns \<open>cols\<close>.
\<close>

function skipOccupied :: "GoogTableCell option list \<Rightarrow> nat \<Rightarrow> nat" where
  "skipOccupied cols columnNum =
     (if columnNum < length cols \<and> cols ! columnNum \<noteq> None
      then skipOccupied cols (Suc columnNum) else columnNum)"
  by pat_completeness auto
termination
  by (relation "measure (\<lambda>(cols, columnNum). length cols - columnNum)") auto

declare skipOccupied.simps [simp del]

text \<open>
  Lines 77 to 84: the columns array of one row is extended to \<open>columnNum + colSpan\<close>
  entries (new entries are holes) and the cell is stored at each column it covers.
\<close>

definition setColumns :: "GoogTableCell option list \<Rightarrow> nat \<Rightarrow> GoogTableCell \<Rightarrow>
    GoogTableCell option list" where
  "setColumns cols columnNum cell =
     (let minimumColumnLength = columnNum + nat (colSpan cell);
          cols1 = (if length cols < minimumColumnLength
                   then cols @ replicate (minimumColumnLength - length cols) None else cols)
      in fold (\<lambda>j cs. cs[columnNum + j := Some cell]) [0..<nat (colSpan cell)] cols1)"

text \<open>
  Lines 68 to 84, one turn of the loop over \<open>i\<close>: the row at \<open>rowNum + i\<close> is looked up;
  when there is none, a new row object is pushed at the end of \<open>rows\<close> (wherever that
  is) and it is that new object whose columns are written.
\<close>

definition placeInRow :: "dom_tr list \<Rightarrow> nat \<Rightarrow> nat \<Rightarrow> GoogTableCell \<Rightarrow> nat \<Rightarrow>
    GoogTableRow list \<Rightarrow> GoogTableRow list" where
  "placeInRow trs rowNum columnNum cell i rs =
     (let cellRowNum = rowNum + i;
          rs1 = (if cellRowNum < length rs then rs
                 else rs @ [new_GoogTableRow (map_option tr_nid (nth_js trs (int cellRowNum)))
                              (int cellRowNum)]);
          k = (if cellRowNum < length rs then cellRowNum else length rs)
      in rs1[k := (rs1 ! k)\<lparr>columns := setColumns (columns (rs1 ! k)) columnNum cell\<rparr>])"

definition placeCell :: "dom_tr list \<Rightarrow> nat \<Rightarrow> nat \<Rightarrow> GoogTableCell \<Rightarrow>
    GoogTableRow list \<Rightarrow> GoogTableRow list" where
  "placeCell trs rowNum columnNum cell rs =
     fold (placeInRow trs rowNum columnNum cell) [0..<nat (rowSpan cell)] rs"

text \<open>
  One turn of the loop over the cell nodes of a row (lines 59 to 87). \<open>existing\<close> says
  whether \<^verbatim>\<open>existingRow\<close> was defined when the row was entered; the object it names is
  the entry of \<open>rows\<close> at \<open>rowNum\<close>, since \<open>rows\<close> only grows at its end.
\<close>

definition nextColumn :: "bool \<Rightarrow> GoogTableRow list \<Rightarrow> nat \<Rightarrow> nat \<Rightarrow> nat" where
  "nextColumn existing rs rowNum columnNum =
     (if existing then skipOccupied (columns (rs ! rowNum)) columnNum else columnNum)"

definition cellStep :: "dom_tr list \<Rightarrow> nat \<Rightarrow> bool \<Rightarrow> dom_node \<Rightarrow>
    GoogTableRow list \<times> nat \<Rightarrow> GoogTableRow list \<times> nat" where
  "cellStep trs rowNum existing td st =
     (let columnNum = nextColumn existing (fst st) rowNum (snd st);
          cell = new_GoogTableCell td (int rowNum) (int columnNum)
      in (placeCell trs rowNum columnNum cell (fst st), columnNum + nat (colSpan cell)))"

definition rowStep :: "dom_tr list \<Rightarrow> nat \<Rightarrow> GoogTableRow list \<Rightarrow> GoogTableRow list" where
  "rowStep trs rowNum rs =
     fst (fold (cellStep trs rowNum (rowNum < length rs))
            (getChildCellElements (trs ! rowNum)) (rs, 0))"

definition buildRows :: "dom_table \<Rightarrow> GoogTableRow list" where
  "buildRows tbl =
     (case tBodies tbl of
        [] \<Rightarrow> []
      | tbody # others \<Rightarrow>
          (let trs = filter (\<lambda>child. tr_tagName child = ''TR'') tbody
           in fold (rowStep trs) [0..<length trs] []))"

definition refresh :: "GoogTable \<Rightarrow> GoogTable" where
  "refresh g = g\<lparr>rows := buildRows (table_element g)\<rparr>"

definition new_GoogTable :: "dom_table \<Rightarrow> GoogTable" where
  "new_GoogTable node = refresh \<lparr>table_element = node, rows = []\<rparr>"

section \<open>Operations on the tree\<close>

definition all_rows :: "dom_table \<Rightarrow> dom_tr list" where
  "all_rows tbl = concat (tBodies tbl)"

definition all_nodes :: "dom_table \<Rightarrow> dom_node list" where
  "all_nodes tbl = concat (map tr_childNodes (all_rows tbl))"

definition lookup_node :: "dom_table \<Rightarrow> node_ref \<Rightarrow> dom_node option" where
  "lookup_node tbl r = find (\<lambda>n. nid n = r) (all_nodes tbl)"

text \<open>\<^verbatim>\<open>!td.parentNode\<close>: the node is not in the tree.\<close>

definition detached :: "dom_table \<Rightarrow> node_ref \<Rightarrow> bool" where
  "detached tbl r = (lookup_node tbl r = None)"

definition childNodes_of :: "dom_table \<Rightarrow> node_ref \<Rightarrow> content list" where
  "childNodes_of tbl r = (case lookup_node tbl r of None \<Rightarrow> [] | Some n \<Rightarrow> childNodes n)"

definition map_tr :: "(dom_tr \<Rightarrow> dom_tr) \<Rightarrow> dom_table \<Rightarrow> dom_table" where
  "map_tr f tbl = tbl\<lparr>tBodies := map (map f) (tBodies tbl)\<rparr>"

definition update_node :: "node_ref \<Rightarrow> (dom_node \<Rightarrow> dom_node) \<Rightarrow> dom_table \<Rightarrow> dom_table" where
  "update_node r f tbl =
     map_tr (\<lambda>tr. tr\<lparr>tr_childNodes :=
                      map (\<lambda>n. if nid n = r then f n else n) (tr_childNodes tr)\<rparr>) tbl"

definition removeChild :: "node_ref \<Rightarrow> dom_table \<Rightarrow> dom_table" where
  "removeChild r tbl =
     map_tr (\<lambda>tr. tr\<lparr>tr_childNodes := filter (\<lambda>n. nid n \<noteq> r) (tr_childNodes tr)\<rparr>) tbl"

definition appendChild :: "node_ref \<Rightarrow> content \<Rightarrow> dom_table \<Rightarrow> dom_table" where
  "appendChild r ch tbl = update_node r (\<lambda>n. n\<lparr>childNodes := childNodes n @ [ch]\<rparr>) tbl"

definition set_innerHTML :: "node_ref \<Rightarrow> content list \<Rightarrow> dom_table \<Rightarrow> dom_table" where
  "set_innerHTML r html tbl = update_node r (\<lambda>n. n\<lparr>childNodes := html\<rparr>) tbl"

text \<open>
  \<^verbatim>\<open>row.insertBefore(td, sibling)\<close> on the row node \<open>tr\<close>: with \<^verbatim>\<open>null\<close> the node is
  appended; with a sibling that is not a child of the row the DOM throws
  \<^verbatim>\<open>NotFoundError\<close>. A row node that is not in the tree leaves the tree as it is.
\<close>

fun insert_before :: "dom_node \<Rightarrow> node_ref \<Rightarrow> dom_node list \<Rightarrow> dom_node list" where
  "insert_before td s [] = [td]"
| "insert_before td s (n # ns) = (if nid n = s then td # n # ns else n # insert_before td s ns)"

definition insertBefore :: "node_ref \<Rightarrow> dom_node \<Rightarrow> node_ref option \<Rightarrow> dom_table \<Rightarrow>
    error + dom_table" where
  "insertBefore tr td sibling tbl =
     (case find (\<lambda>r. tr_nid r = tr) (all_rows tbl) of
        None \<Rightarrow> Inr tbl
      | Some r \<Rightarrow>
          (case sibling of
             None \<Rightarrow> Inr (map_tr (\<lambda>r. if tr_nid r = tr
                            then r\<lparr>tr_childNodes := tr_childNodes r @ [td]\<rparr> else r) tbl)
           | Some s \<Rightarrow>
               if s \<in> set (map nid (tr_childNodes r))
               then Inr (map_tr (\<lambda>r. if tr_nid r = tr
                            then r\<lparr>tr_childNodes := insert_before td s (tr_childNodes r)\<rparr>
                            else r) tbl)
               else Inl NotFoundError))"

text \<open>\<^verbatim>\<open>document.createElement\<close>: a node that is new, so a reference not yet in use.\<close>

definition fresh_ref :: "dom_table \<Rightarrow> node_ref" where
  "fresh_ref tbl = Suc (fold max (map nid (all_nodes tbl) @ map tr_nid (all_rows tbl)) 0)"

definition createElement_td :: "node_ref \<Rightarrow> dom_node" where
  "createElement_td r =
     \<lparr>nid = r, tagName = ''TD'', colSpanAttr = None, rowSpanAttr = None, childNodes = []\<rparr>"

definition createElement_br :: content where
  "createElement_br = ElementNode ''BR'' []"

section \<open>The span setters\<close>

text \<open>
  A setter changes the cell object and the cell's node; the pair of both is passed and
  returned.
\<close>

definition setColSpan :: "int \<Rightarrow> GoogTableCell \<times> dom_table \<Rightarrow> GoogTableCell \<times> dom_table" where
  "setColSpan v st =
     (let this = fst st; tbl = snd st in
      if v \<noteq> colSpan this
      then (updateCoordinates (this\<lparr>colSpan := v\<rparr>),
            update_node (element this)
              (\<lambda>n. n\<lparr>colSpanAttr := (if v > 1 then Some (nat v) else None)\<rparr>) tbl)
      else (this, tbl))"

definition setRowSpan :: "int \<Rightarrow> GoogTableCell \<times> dom_table \<Rightarrow> GoogTableCell \<times> dom_table" where
  "setRowSpan v st =
     (let this = fst st; tbl = snd st in
      if v \<noteq> rowSpan this
      then (updateCoordinates (this\<lparr>rowSpan := v\<rparr>),
            update_node (element this)
              (\<lambda>n. n\<lparr>rowSpanAttr := (if v > 1 then Some (nat v) else None)\<rparr>) tbl)
      else (this, tbl))"

section \<open>mergeCells\<close>

text \<open>\<^verbatim>\<open>this.rows[i].columns[j]\<close>; \<open>None\<close> where JavaScript has \<^verbatim>\<open>undefined\<close> (a missing
  row makes the read itself throw).\<close>

definition cell_at :: "GoogTableRow list \<Rightarrow> int \<Rightarrow> int \<Rightarrow> GoogTableCell option" where
  "cell_at rs i j =
     (case nth_js rs i of
        None \<Rightarrow> None
      | Some row \<Rightarrow> (case nth_js (columns row) j of None \<Rightarrow> None | Some c \<Rightarrow> c))"

definition extendsOutside :: "GoogTableCell \<Rightarrow> int \<Rightarrow> int \<Rightarrow> int \<Rightarrow> int \<Rightarrow> bool" where
  "extendsOutside cell startRowIndex startColIndex endRowIndex endColIndex =
     (startRow cell < startRowIndex \<or> endRow cell > endRowIndex \<or>
      startCol cell < startColIndex \<or> endCol cell > endColIndex)"

text \<open>The positions the two nested loops visit, in their order.\<close>

definition rectangle :: "int \<Rightarrow> int \<Rightarrow> int \<Rightarrow> int \<Rightarrow> (int \<times> int) list" where
  "rectangle startRowIndex startColIndex endRowIndex endColIndex =
     concat (map (\<lambda>i. map (\<lambda>j. (i, j)) [startColIndex..endColIndex])
               [startRowIndex..endRowIndex])"

text \<open>
  The gathering loop (lines 128 to 145): \<open>Inl TypeError\<close> when a position holds no cell
  (\<^verbatim>\<open>cell.startRow\<close> of \<^verbatim>\<open>undefined\<close>), \<open>Inr None\<close> for the early \<^verbatim>\<open>return false\<close>,
  \<open>Inr (Some cells)\<close> when the loop runs to its end.
\<close>

fun gatherCells :: "GoogTableRow list \<Rightarrow> int \<Rightarrow> int \<Rightarrow> int \<Rightarrow> int \<Rightarrow> (int \<times> int) list \<Rightarrow>
    GoogTableCell list \<Rightarrow> error + GoogTableCell list option" where
  "gatherCells rs sr sc er ec [] cells = Inr (Some cells)"
| "gatherCells rs sr sc er ec (p # ps) cells =
     (case cell_at rs (fst p) (snd p) of
        None \<Rightarrow> Inl TypeError
      | Some cell \<Rightarrow>
          if extendsOutside cell sr sc er ec then Inr None
          else gatherCells rs sr sc er ec ps (cells @ [cell]))"

definition lastChildIsText :: "dom_table \<Rightarrow> node_ref \<Rightarrow> bool" where
  "lastChildIsText tbl r =
     (case childNodes_of tbl r of [] \<Rightarrow> False | c # cs \<Rightarrow> nodeType (last (c # cs)) = 3)"

text \<open>
  \<^verbatim>\<open>while ((childNode = td.firstChild)) targetTd.appendChild(childNode)\<close>: each child
  leaves \<open>td\<close> and becomes the last child of the target, in order. The loop runs only
  for \<open>td\<close> other than the target.
\<close>

definition moveFirstChild :: "node_ref \<Rightarrow> node_ref \<Rightarrow> content \<Rightarrow> dom_table \<Rightarrow> dom_table" where
  "moveFirstChild td targetTd childNode tbl =
     appendChild targetTd childNode (update_node td (\<lambda>n. n\<lparr>childNodes := tl (childNodes n)\<rparr>) tbl)"

definition moveChildren :: "node_ref \<Rightarrow> node_ref \<Rightarrow> dom_table \<Rightarrow> dom_table" where
  "moveChildren td targetTd tbl = fold (moveFirstChild td targetTd) (childNodes_of tbl td) tbl"

text \<open>One turn of the merging loop (lines 151 to 168).\<close>

definition mergeStep :: "node_ref \<Rightarrow> GoogTableCell \<Rightarrow> dom_table \<Rightarrow> dom_table" where
  "mergeStep targetTd cell tbl =
     (let td = element cell in
      if detached tbl td \<or> td = targetTd then tbl
      else
        (let tbl1 = (if lastChildIsText tbl targetTd
                     then appendChild targetTd createElement_br tbl else tbl);
             tbl2 = moveChildren td targetTd tbl1
         in removeChild td tbl2))"

text \<open>
  \<open>mergeCells\<close> returns \<open>Inl\<close> of the exception when the JavaScript throws, and otherwise
  the boolean it returns together with the table object after the call. The calls of
  \<^verbatim>\<open>handleError\<close> only report a message and are left out. The target cell object changed
  by the setters is dropped by \<open>refresh\<close>, which builds all cell objects anew.
\<close>

definition mergeCells :: "GoogTable \<Rightarrow> int \<Rightarrow> int \<Rightarrow> int \<Rightarrow> int \<Rightarrow> error + bool \<times> GoogTable" where
  "mergeCells this startRowIndex startColIndex endRowIndex endColIndex =
     (if startRowIndex = endRowIndex \<and> startColIndex = endColIndex then Inr (False, this)
      else
        (case gatherCells (rows this) startRowIndex startColIndex endRowIndex endColIndex
                (rectangle startRowIndex startColIndex endRowIndex endColIndex) [] of
           Inl e \<Rightarrow> Inl e
         | Inr None \<Rightarrow> Inr (False, this)
         | Inr (Some []) \<Rightarrow> Inl TypeError
         | Inr (Some (targetCell # others)) \<Rightarrow>
             (let tbl1 = fold (mergeStep (element targetCell)) others (table_element this);
                  st2 = setColSpan ((endColIndex - startColIndex) + 1) (targetCell, tbl1);
                  st3 = setRowSpan ((endRowIndex - startRowIndex) + 1) st2
              in Inr (True, refresh (this\<lparr>table_element := snd st3\<rparr>)))))"

section \<open>splitCell\<close>

text \<open>
  The loop of \<open>insertCellElement\<close> (line 223) steps by the span of the cell it looks at;
  it does not end when that span is 0, so the function is partial: \<open>None\<close> is a loop
  that never ends.
\<close>

partial_function (option) findNextSibling ::
    "GoogTableCell option list \<Rightarrow> int \<Rightarrow> int \<Rightarrow> node_ref option option" where
  "findNextSibling cols rowIndex i =
     (case nth_js cols i of
        None \<Rightarrow> Some None
      | Some None \<Rightarrow> Some None
      | Some (Some cell) \<Rightarrow>
          if startRow cell = rowIndex then Some (Some (element cell))
          else findNextSibling cols rowIndex (i + colSpan cell))"

declare findNextSibling.simps [code]

definition insertCellElement :: "GoogTable \<Rightarrow> dom_node \<Rightarrow> int \<Rightarrow> int \<Rightarrow>
    (error + GoogTable) option" where
  "insertCellElement this td rowIndex colIndex =
     (case nth_js (rows this) rowIndex of
        None \<Rightarrow> Some (Inl TypeError)
      | Some row \<Rightarrow>
          (case findNextSibling (columns row) rowIndex colIndex of
             None \<Rightarrow> None
           | Some nextSiblingElement \<Rightarrow>
               (case row_element row of
                  None \<Rightarrow> Some (Inl TypeError)
                | Some tr \<Rightarrow>
                    (case insertBefore tr td nextSiblingElement (table_element this) of
                       Inl e \<Rightarrow> Some (Inl e)
                     | Inr tbl \<Rightarrow> Some (Inr (this\<lparr>table_element := tbl\<rparr>))))))"

text \<open>The offsets \<open>(i, j)\<close> for which the loops of \<open>splitCell\<close> create a node.\<close>

definition splitOffsets :: "GoogTableCell \<Rightarrow> (int \<times> int) list" where
  "splitOffsets cell =
     filter (\<lambda>p. fst p > 0 \<or> snd p > 0)
       (concat (map (\<lambda>i. map (\<lambda>j. (i, j)) [0..colSpan cell - 1]) [0..rowSpan cell - 1]))"

text \<open>
  One created node: the state is the table object, the list \<^verbatim>\<open>newTds\<close> and the next
  unused node reference.
\<close>

definition splitStep :: "int \<Rightarrow> int \<Rightarrow> int \<times> int \<Rightarrow>
    (error + GoogTable \<times> node_ref list \<times> node_ref) option \<Rightarrow>
    (error + GoogTable \<times> node_ref list \<times> node_ref) option" where
  "splitStep rowIndex colIndex p st =
     (case st of
        None \<Rightarrow> None
      | Some (Inl e) \<Rightarrow> Some (Inl e)
      | Some (Inr (this, newTds, next)) \<Rightarrow>
          (case insertCellElement this (createElement_td next)
                  (rowIndex + fst p) (colIndex + snd p) of
             None \<Rightarrow> None
           | Some (Inl e) \<Rightarrow> Some (Inl e)
           | Some (Inr this1) \<Rightarrow> Some (Inr (this1, newTds @ [next], Suc next))))"

text \<open>
  \<open>splitCell\<close>: \<open>None\<close> when the call does not return, \<open>Some (Inl e)\<close> when it throws,
  \<open>Some (Inr (newTds, table))\<close> when it returns \<^verbatim>\<open>newTds\<close>.
\<close>

definition splitCell :: "GoogTable \<Rightarrow> int \<Rightarrow> int \<Rightarrow> (error + node_ref list \<times> GoogTable) option" where
  "splitCell this rowIndex colIndex =
     (case cell_at (rows this) rowIndex colIndex of
        None \<Rightarrow> Some (Inl TypeError)
      | Some cell \<Rightarrow>
          (let html = childNodes_of (table_element this) (element cell) in
           case fold (splitStep rowIndex colIndex) (splitOffsets cell)
                  (Some (Inr (this, [], fresh_ref (table_element this)))) of
             None \<Rightarrow> None
           | Some (Inl e) \<Rightarrow> Some (Inl e)
           | Some (Inr (this1, newTds, next)) \<Rightarrow>
               (let st1 = setColSpan 1 (cell, table_element this1);
                    st2 = setRowSpan 1 st1
                in case newTds of
                     [] \<Rightarrow> Some (Inl TypeError)
                   | newTd # rest \<Rightarrow>
                       Some (Inr (newTds,
                         refresh (this1\<lparr>table_element :=
                           set_innerHTML (element cell) []
                             (set_innerHTML newTd html (snd st2))\<rparr>))))))"

section \<open>Observations used in the statements\<close>

text \<open>The row nodes \<open>refresh\<close> walks: the \<^verbatim>\<open>TR\<close> children of the first body.\<close>

definition physical_rows :: "dom_table \<Rightarrow> dom_tr list" where
  "physical_rows tbl =
     (case tBodies tbl of
        [] \<Rightarrow> []
      | tbody # others \<Rightarrow> filter (\<lambda>child. tr_tagName child = ''TR'') tbody)"

definition cell_nodes :: "dom_table \<Rightarrow> dom_node list" where
  "cell_nodes tbl = concat (map getChildCellElements (physical_rows tbl))"

text \<open>The node of the cell at each position of the grid.\<close>

definition layout :: "GoogTable \<Rightarrow> node_ref option list list" where
  "layout g = map (\<lambda>row. map (map_option element) (columns row)) (rows g)"

text \<open>The cells of a grid, each once.\<close>

definition grid_cells :: "GoogTableRow list \<Rightarrow> GoogTableCell list" where
  "grid_cells rs =
     remdups (concat (map (\<lambda>row. concat (map (\<lambda>c. case c of None \<Rightarrow> [] | Some x \<Rightarrow> [x])
                                     (columns row))) rs))"

definition outside_region :: "int \<Rightarrow> int \<Rightarrow> int \<Rightarrow> int \<Rightarrow> GoogTableCell \<Rightarrow> bool" where
  "outside_region sr sc er ec c =
     (endRow c < sr \<or> er < startRow c \<or> endCol c < sc \<or> ec < startCol c)"

definition col_at :: "GoogTableCell option list \<Rightarrow> int \<Rightarrow> GoogTableCell option" where
  "col_at cols j = (case nth_js cols j of None \<Rightarrow> None | Some c \<Rightarrow> c)"

text \<open>
  \<open>refresh\<close> does not check the spans it reads. \<open>spansFit\<close> replays its loops and says
  whether every cell node, at the moment it is placed, finds each slot of its rectangle
  empty, and finds an entry in \<open>rows\<close> for every row above its own (so that a pushed
  row lands at its own index).
\<close>

definition freeFor :: "GoogTableRow list \<Rightarrow> nat \<Rightarrow> GoogTableCell \<Rightarrow> bool" where
  "freeFor rs rowNum cell =
     (rowNum \<le> length rs \<and>
      list_all (\<lambda>p. cell_at rs (fst p) (snd p) = None)
        (rectangle (startRow cell) (startCol cell) (endRow cell) (endCol cell)))"

fun cellsFit :: "dom_tr list \<Rightarrow> nat \<Rightarrow> bool \<Rightarrow> dom_node list \<Rightarrow> GoogTableRow list \<times> nat \<Rightarrow>
    bool" where
  "cellsFit trs rowNum existing [] st = True"
| "cellsFit trs rowNum existing (td # tds) st =
     (freeFor (fst st) rowNum
        (new_GoogTableCell td (int rowNum)
           (int (nextColumn existing (fst st) rowNum (snd st)))) \<and>
      cellsFit trs rowNum existing tds (cellStep trs rowNum existing td st))"

fun rowsFit :: "dom_tr list \<Rightarrow> nat list \<Rightarrow> GoogTableRow list \<Rightarrow> bool" where
  "rowsFit trs [] rs = True"
| "rowsFit trs (rowNum # later) rs =
     (cellsFit trs rowNum (rowNum < length rs) (getChildCellElements (trs ! rowNum)) (rs, 0) \<and>
      rowsFit trs later (rowStep trs rowNum rs))"

definition spansFit :: "dom_table \<Rightarrow> bool" where
  "spansFit tbl =
     (case tBodies tbl of
        [] \<Rightarrow> True
      | tbody # others \<Rightarrow>
          (let trs = filter (\<lambda>child. tr_tagName child = ''TR'') tbody
           in rowsFit trs [0..<length trs] []))"

text \<open>The coverage property of a grid: a cell found anywhere fills its whole rectangle.\<close>

definition covered :: "GoogTableRow list \<Rightarrow> bool" where
  "covered rs =
     (\<forall>i j c. cell_at rs i j = Some c \<longrightarrow>
        (\<forall>a b. startRow c \<le> a \<and> a \<le> endRow c \<and> startCol c \<le> b \<and> b \<le> endCol c \<longrightarrow>
           cell_at rs a b = Some c))"

text \<open>
  The tree without the cells' content. \<open>refresh\<close> reads only the tags, the references
  and the span attributes, which \<open>bare\<close> keeps.
\<close>

definition bare_node :: "dom_node \<Rightarrow> dom_node" where
  "bare_node n = n\<lparr>childNodes := []\<rparr>"

definition bare_tr :: "dom_tr \<Rightarrow> dom_tr" where
  "bare_tr tr = tr\<lparr>tr_childNodes := map bare_node (tr_childNodes tr)\<rparr>"

definition bare :: "dom_table \<Rightarrow> dom_table" where
  "bare tbl = map_tr bare_tr tbl"

text \<open>What one turn of the merging loop does to the tree when content is left aside.\<close>

definition dropStep :: "node_ref \<Rightarrow> GoogTableCell \<Rightarrow> dom_table \<Rightarrow> dom_table" where
  "dropStep targetTd cell tbl =
     (if detached tbl (element cell) \<or> element cell = targetTd then tbl
      else removeChild (element cell) tbl)"

text \<open>The tree a successful \<open>mergeCells\<close> hands to \<open>refresh\<close> (lines 151 to 170).\<close>

definition merged_tree :: "GoogTableCell \<Rightarrow> GoogTableCell list \<Rightarrow> int \<Rightarrow> int \<Rightarrow> dom_table \<Rightarrow>
    dom_table" where
  "merged_tree targetCell others cs rs tbl =
     snd (setRowSpan rs
            (setColSpan cs (targetCell, fold (mergeStep (element targetCell)) others tbl)))"


text \<open>
  The content rule in the words of the specification: \<^verbatim>\<open>appendContent\<close> puts a line-break
  element first if the existing trailing content is plain text, that is, a text node.
  It is compared with what the loop of \<open>mergeCells\<close> does to the tree.
\<close>

definition endsInText :: "content list \<Rightarrow> bool" where
  "endsInText cs =
     (case cs of [] \<Rightarrow> False
      | c # cs' \<Rightarrow> (case last (c # cs') of TextNode s \<Rightarrow> True | ElementNode t es \<Rightarrow> False
                     | CommentNode s \<Rightarrow> False))"

definition appendContent :: "content list \<Rightarrow> content list \<Rightarrow> content list" where
  "appendContent existing v =
     existing @ (if endsInText existing then [ElementNode ''BR'' []] else []) @ v"

text \<open>
  The nodes of the distinct cells other than the target that are in the tree when the
  merge starts, each once, in the order in which the loop meets them.
\<close>

function firsts :: "node_ref list \<Rightarrow> node_ref list" where
  "firsts [] = []"
| "firsts (x # xs) = x # firsts (filter (\<lambda>y. y \<noteq> x) xs)"
  by pat_completeness auto
termination
  by (relation "measure length") (auto simp: less_Suc_eq_le)

definition absorbedNodes :: "dom_table \<Rightarrow> node_ref \<Rightarrow> GoogTableCell list \<Rightarrow> node_ref list" where
  "absorbedNodes tbl targetTd others =
     firsts (filter (\<lambda>r. r \<noteq> targetTd \<and> \<not> detached tbl r) (map element others))"

text \<open>Every cell of a grid wraps a node from the set \<open>N\<close>.\<close>

definition cells_from :: "node_ref set \<Rightarrow> GoogTableRow list \<Rightarrow> bool" where
  "cells_from N rs = (\<forall>row\<in>set rs. \<forall>c. Some c \<in> set (columns row) \<longrightarrow> element c \<in> N)"

section \<open>Example tables\<close>

definition unit_td :: "node_ref \<Rightarrow> content list \<Rightarrow> dom_node" where
  "unit_td r cs =
     \<lparr>nid = r, tagName = ''TD'', colSpanAttr = None, rowSpanAttr = None, childNodes = cs\<rparr>"

definition text_td :: "node_ref \<Rightarrow> string \<Rightarrow> dom_node" where
  "text_td r s = unit_td r [TextNode s]"

definition tr_of :: "node_ref \<Rightarrow> dom_node list \<Rightarrow> dom_tr" where
  "tr_of r ns = \<lparr>tr_nid = r, tr_tagName = ''TR'', tr_childNodes = ns\<rparr>"

text \<open>Three rows of three unit cells, the cell of node \<open>r\<close> with content \<open>f r\<close>.\<close>

definition unit_grid :: "(node_ref \<Rightarrow> content list) \<Rightarrow> dom_table" where
  "unit_grid f =
     \<lparr>tBodies = [[tr_of 101 [unit_td 1 (f 1), unit_td 2 (f 2), unit_td 3 (f 3)],
                  tr_of 102 [unit_td 4 (f 4), unit_td 5 (f 5), unit_td 6 (f 6)],
                  tr_of 103 [unit_td 7 (f 7), unit_td 8 (f 8), unit_td 9 (f 9)]]]\<rparr>"

definition unit_cell :: "node_ref \<Rightarrow> int \<Rightarrow> int \<Rightarrow> GoogTableCell" where
  "unit_cell r i j =
     \<lparr>element = r, colSpan = 1, rowSpan = 1, startRow = i, startCol = j, endCol = j,
      endRow = i\<rparr>"

text \<open>The tree and the grid after the four cells at its top left have been merged.\<close>

definition merged_unit_grid :: "(node_ref \<Rightarrow> content list) \<Rightarrow> dom_table" where
  "merged_unit_grid f =
     merged_tree (unit_cell 1 0 0) [unit_cell 2 0 1, unit_cell 4 1 0, unit_cell 5 1 1] 2 2
       (unit_grid f)"

definition merged_rows :: "GoogTableRow list" where
  "merged_rows =
     [\<lparr>index = 0, row_element = Some 101,
       columns = [Some \<lparr>element = 1, colSpan = 2, rowSpan = 2, startRow = 0, startCol = 0,
                        endCol = 1, endRow = 1\<rparr>,
                  Some \<lparr>element = 1, colSpan = 2, rowSpan = 2, startRow = 0, startCol = 0,
                        endCol = 1, endRow = 1\<rparr>,
                  Some (unit_cell 3 0 2)]\<rparr>,
      \<lparr>index = 1, row_element = Some 102,
       columns = [Some \<lparr>element = 1, colSpan = 2, rowSpan = 2, startRow = 0, startCol = 0,
                        endCol = 1, endRow = 1\<rparr>,
                  Some \<lparr>element = 1, colSpan = 2, rowSpan = 2, startRow = 0, startCol = 0,
                        endCol = 1, endRow = 1\<rparr>,
                  Some (unit_cell 6 1 2)]\<rparr>,
      \<lparr>index = 2, row_element = Some 103,
       columns = [Some (unit_cell 7 2 0), Some (unit_cell 8 2 1), Some (unit_cell 9 2 2)]\<rparr>]"

text \<open>The same grid with one text node in each cell.\<close>

definition table_3x3 :: dom_table where
  "table_3x3 =
     \<lparr>tBodies = [[tr_of 101 [text_td 1 ''a'', text_td 2 ''b'', text_td 3 ''c''],
                  tr_of 102 [text_td 4 ''d'', text_td 5 ''e'', text_td 6 ''f''],
                  tr_of 103 [text_td 7 ''g'', text_td 8 ''h'', text_td 9 ''i'']]]\<rparr>"

text \<open>The same grid with one cell of two rows and two columns at its top left.\<close>

definition table_merged :: dom_table where
  "table_merged =
     \<lparr>tBodies = [[tr_of 101 [(text_td 1 ''a'')\<lparr>colSpanAttr := Some 2, rowSpanAttr := Some 2\<rparr>,
                            text_td 3 ''c''],
                  tr_of 102 [text_td 6 ''f''],
                  tr_of 103 [text_td 7 ''g'', text_td 8 ''h'', text_td 9 ''i'']]]\<rparr>"

text \<open>Two rows whose only cell spans both rows and two columns.\<close>

definition table_single :: dom_table where
  "table_single =
     \<lparr>tBodies = [[tr_of 101 [(text_td 1 ''a'')\<lparr>colSpanAttr := Some 2, rowSpanAttr := Some 2\<rparr>],
                  tr_of 102 []]]\<rparr>"

text \<open>A row without cells above a row with one cell.\<close>

definition table_empty_row :: dom_table where
  "table_empty_row = \<lparr>tBodies = [[tr_of 101 [], tr_of 102 [text_td 1 ''a'']]]\<rparr>"

text \<open>
  Overlapping spans: the second cell of the first row reaches down into the second
  row, whose only cell is two columns wide.
\<close>

definition table_overlap :: dom_table where
  "table_overlap =
     \<lparr>tBodies = [[tr_of 101 [text_td 1 ''a'', (text_td 2 ''b'')\<lparr>rowSpanAttr := Some 2\<rparr>],
                  tr_of 102 [(text_td 3 ''c'')\<lparr>colSpanAttr := Some 2\<rparr>]]]\<rparr>"



text \<open>Content for \<open>unit_grid\<close> with a text node, an element, nothing, and a text node.\<close>

definition mixed_content :: "node_ref \<Rightarrow> content list" where
  "mixed_content r =
     (if r = 1 then [TextNode ''a'']
      else if r = 2 then [ElementNode ''B'' [TextNode ''b'']]
      else if r = 4 then []
      else [TextNode ''e''])"

section \<open>Facts about refresh\<close>

text \<open>
  C8. Refresh idempotence: a second \<open>refresh\<close> with no change of the tree in between
  gives the same grid as the first, row by row and slot by slot: the same number of
  rows, the same columns, and in every slot a cell with the same node, spans and
  coordinates. (The cell objects themselves are built anew by every \<open>refresh\<close>; a cell is
  identified here by the node it wraps and its fields.) \<open>refresh\<close> does not change the tree.
\<close>

theorem refresh_idempotent:
  "refresh (refresh this) = refresh this \<and>
   rows (refresh (refresh this)) = rows (refresh this) \<and>
   table_element (refresh this) = table_element this"
  by (simp add: refresh_def)

subsection \<open>Where a cell is after it has been placed\<close>

lemma cell_at_col_at:
  "cell_at rs i j = (case nth_js rs i of None \<Rightarrow> None | Some row \<Rightarrow> col_at (columns row) j)"
  by (simp add: cell_at_def col_at_def split: option.splits)

lemma fold_update_length:
  "length (fold (\<lambda>j cs. cs[n + j := x]) [0..<m] cs) = length cs"
  by (induction m) simp_all

lemma fold_update_nth:
  "k < length cs \<Longrightarrow>
   fold (\<lambda>j cs. cs[n + j := x]) [0..<m] cs ! k = (if n \<le> k \<and> k < n + m then x else cs ! k)"
proof (induction m)
  case 0
  then show ?case by auto
next
  case (Suc m)
  then show ?case
    by (cases "k = n + m") (auto simp: nth_list_update fold_update_length)
qed

lemma setColumns_length:
  "length (setColumns cols n cell) = max (length cols) (n + nat (colSpan cell))"
  by (simp add: setColumns_def Let_def fold_update_length)

lemma col_at_setColumns:
  "col_at (setColumns cols n cell) b =
     (if int n \<le> b \<and> b < int n + colSpan cell then Some cell else col_at cols b)"
proof (cases "0 \<le> b \<and> nat b < max (length cols) (n + nat (colSpan cell))")
  case True
  then have "nat b < length (if length cols < n + nat (colSpan cell)
                   then cols @ replicate (n + nat (colSpan cell) - length cols) None else cols)"
    by auto
  then show ?thesis using True
    by (auto simp: col_at_def nth_js_def setColumns_def Let_def fold_update_length
        fold_update_nth nth_append)
next
  case False
  then show ?thesis
    by (auto simp: col_at_def nth_js_def setColumns_length)
qed

lemma placeInRow_length:
  "rowNum + i \<le> length rs \<Longrightarrow>
   length (placeInRow trs rowNum columnNum cell i rs) = max (length rs) (Suc (rowNum + i))"
  by (auto simp: placeInRow_def Let_def)

lemma cell_at_placeInRow:
  assumes "rowNum + i \<le> length rs"
  shows "cell_at (placeInRow trs rowNum columnNum cell i rs) a b =
     (if a = int (rowNum + i) \<and> int columnNum \<le> b \<and> b < int columnNum + colSpan cell
      then Some cell else cell_at rs a b)"
proof (cases "rowNum + i < length rs")
  case True
  then show ?thesis
    by (auto simp: placeInRow_def Let_def cell_at_col_at nth_js_def nth_list_update
        col_at_setColumns)
next
  case False
  with assms have eq: "length rs = rowNum + i" by simp
  have "col_at [] b = None" by (simp add: col_at_def nth_js_def)
  then show ?thesis using False eq
    by (auto simp: placeInRow_def Let_def cell_at_col_at nth_js_def nth_list_update nth_append
        col_at_setColumns new_GoogTableRow_def)
qed

lemma fold_placeInRow:
  assumes "rowNum \<le> length rs"
  shows "length (fold (placeInRow trs rowNum columnNum cell) [0..<n] rs) =
           max (length rs) (rowNum + n) \<and>
    (\<forall>a b. cell_at (fold (placeInRow trs rowNum columnNum cell) [0..<n] rs) a b =
     (if int rowNum \<le> a \<and> a < int rowNum + int n \<and>
         int columnNum \<le> b \<and> b < int columnNum + colSpan cell
      then Some cell else cell_at rs a b))"
proof (induction n)
  case 0
  then show ?case using assms by auto
next
  case (Suc n)
  let ?rs = "fold (placeInRow trs rowNum columnNum cell) [0..<n] rs"
  from Suc have len: "length ?rs = max (length rs) (rowNum + n)" by simp
  then have le: "rowNum + n \<le> length ?rs" by simp
  show ?case
    using Suc len
    by (auto simp: placeInRow_length [OF le] cell_at_placeInRow [OF le])
qed

lemma cell_at_placeCell:
  assumes "rowNum \<le> length rs"
  shows "cell_at (placeCell trs rowNum columnNum cell rs) a b =
     (if int rowNum \<le> a \<and> a < int rowNum + rowSpan cell \<and>
         int columnNum \<le> b \<and> b < int columnNum + colSpan cell
      then Some cell else cell_at rs a b)"
  using fold_placeInRow [OF assms, of trs columnNum cell "nat (rowSpan cell)"]
  by (auto simp: placeCell_def)

lemma set_rectangle:
  "set (rectangle sr sc er ec) =
     {p. sr \<le> fst p \<and> fst p \<le> er \<and> sc \<le> snd p \<and> snd p \<le> ec}"
  by (auto simp: rectangle_def)

lemma new_cell_fields:
  "startRow (new_GoogTableCell td r c) = r"
  "startCol (new_GoogTableCell td r c) = c"
  "endRow (new_GoogTableCell td r c) = r + rowSpan (new_GoogTableCell td r c) - 1"
  "endCol (new_GoogTableCell td r c) = c + colSpan (new_GoogTableCell td r c) - 1"
  by (simp_all add: new_GoogTableCell_def updateCoordinates_def)

subsection \<open>Coverage is kept by every placement on free slots\<close>

lemma covered_placeCell:
  assumes cov: "covered rs"
    and free: "freeFor rs rowNum cell"
    and sr: "startRow cell = int rowNum" and sc: "startCol cell = int columnNum"
    and er: "endRow cell = int rowNum + rowSpan cell - 1"
    and ec: "endCol cell = int columnNum + colSpan cell - 1"
  shows "covered (placeCell trs rowNum columnNum cell rs)"
proof -
  from free have le: "rowNum \<le> length rs" by (simp add: freeFor_def)
  have inside: "cell_at rs a b = None"
    if "int rowNum \<le> a" "a < int rowNum + rowSpan cell" "int columnNum \<le> b"
      "b < int columnNum + colSpan cell" for a b
  proof -
    from that have "(a, b) \<in> set (rectangle (startRow cell) (startCol cell)
        (endRow cell) (endCol cell))"
      by (simp add: set_rectangle sr sc er ec)
    with free show ?thesis
      by (auto simp: freeFor_def list_all_iff)
  qed
  show ?thesis
    unfolding covered_def
  proof (intro allI impI)
    fix i j c a b
    assume at: "cell_at (placeCell trs rowNum columnNum cell rs) i j = Some c"
      and rect: "startRow c \<le> a \<and> a \<le> endRow c \<and> startCol c \<le> b \<and> b \<le> endCol c"
    show "cell_at (placeCell trs rowNum columnNum cell rs) a b = Some c"
    proof (cases "int rowNum \<le> i \<and> i < int rowNum + rowSpan cell \<and>
        int columnNum \<le> j \<and> j < int columnNum + colSpan cell")
      case True
      with at have "c = cell" by (simp add: cell_at_placeCell [OF le])
      with rect show ?thesis
        by (simp add: cell_at_placeCell [OF le] sr sc er ec)
    next
      case False
      with at have old: "cell_at rs i j = Some c" by (simp add: cell_at_placeCell [OF le])
      with cov rect have keep: "cell_at rs a b = Some c"
        unfolding covered_def by blast
      with inside have "\<not> (int rowNum \<le> a \<and> a < int rowNum + rowSpan cell \<and>
        int columnNum \<le> b \<and> b < int columnNum + colSpan cell)"
        by auto
      with keep show ?thesis by (auto simp: cell_at_placeCell [OF le])
    qed
  qed
qed

lemma covered_cellStep:
  assumes "covered (fst st)"
    and "freeFor (fst st) rowNum
        (new_GoogTableCell td (int rowNum) (int (nextColumn existing (fst st) rowNum (snd st))))"
  shows "covered (fst (cellStep trs rowNum existing td st))"
  using assms
  by (simp add: cellStep_def Let_def covered_placeCell new_cell_fields)

lemma covered_cells:
  "covered (fst st) \<Longrightarrow> cellsFit trs rowNum existing tds st \<Longrightarrow>
   covered (fst (fold (cellStep trs rowNum existing) tds st))"
proof (induction tds arbitrary: st)
  case Nil
  then show ?case by simp
next
  case (Cons td tds)
  then show ?case
    by (simp add: covered_cellStep)
qed

lemma covered_rows:
  "covered rs \<Longrightarrow> rowsFit trs ns rs \<Longrightarrow> covered (fold (rowStep trs) ns rs)"
proof (induction ns arbitrary: rs)
  case Nil
  then show ?case by simp
next
  case (Cons n ns)
  from Cons.prems have "covered (rowStep trs n rs)"
    by (simp add: rowStep_def covered_cells)
  with Cons show ?case by simp
qed

lemma covered_empty: "covered []"
  by (simp add: covered_def cell_at_def nth_js_def)

lemma covered_buildRows: "spansFit tbl \<Longrightarrow> covered (buildRows tbl)"
  by (cases "tBodies tbl")
    (simp_all add: spansFit_def buildRows_def Let_def covered_rows covered_empty)

text \<open>
  C4, as the code has it. On the table \<open>table_overlap\<close> the coverage claim fails: the
  cell of node 2 starts at row 0, column 1 and ends at row 1, yet the slot at row 1,
  column 1 holds the cell of node 3, which \<open>refresh\<close> placed later over it.
\<close>

theorem refresh_coverage_counterexample:
  "cell_at (rows (refresh (new_GoogTable table_overlap))) 0 1 =
     Some \<lparr>element = 2, colSpan = 1, rowSpan = 2, startRow = 0, startCol = 1,
           endCol = 1, endRow = 1\<rparr> \<and>
   cell_at (rows (refresh (new_GoogTable table_overlap))) 1 1 =
     Some \<lparr>element = 3, colSpan = 2, rowSpan = 1, startRow = 1, startCol = 0,
           endCol = 1, endRow = 1\<rparr>"
  by code_simp

text \<open>
  C4, amended. After \<open>refresh\<close> of a table whose spans fit (\<open>spansFit\<close>: no cell node is
  placed over a slot that an earlier cell already took, and no row with cells follows a
  row that got no entry), every cell \<open>c\<close> found in the grid is the cell at every
  position \<open>(a, b)\<close> with \<open>startRow c \<le> a \<le> endRow c\<close> and \<open>startCol c \<le> b \<le> endCol c\<close>.
\<close>

theorem refresh_coverage:
  assumes "spansFit (table_element this)"
    and "cell_at (rows (refresh this)) i j = Some c"
    and "startRow c \<le> a" "a \<le> endRow c" "startCol c \<le> b" "b \<le> endCol c"
  shows "cell_at (rows (refresh this)) a b = Some c"
proof -
  from covered_buildRows [OF assms(1)] have "covered (rows (refresh this))"
    by (simp add: refresh_def)
  with assms(2-) show ?thesis
    unfolding covered_def by blast
qed

theorem refresh_coverage_witness:
  "spansFit (table_element (new_GoogTable table_merged)) \<and>
   cell_at (rows (refresh (new_GoogTable table_merged))) 0 0 =
     Some \<lparr>element = 1, colSpan = 2, rowSpan = 2, startRow = 0, startCol = 0,
           endCol = 1, endRow = 1\<rparr> \<and>
   cell_at (rows (refresh (new_GoogTable table_merged))) 1 1 =
     Some \<lparr>element = 1, colSpan = 2, rowSpan = 2, startRow = 0, startCol = 0,
           endCol = 1, endRow = 1\<rparr>"
proof -
  have fit: "spansFit (table_element (new_GoogTable table_merged))"
    by code_simp
  have at: "cell_at (rows (refresh (new_GoogTable table_merged))) 0 0 =
     Some \<lparr>element = 1, colSpan = 2, rowSpan = 2, startRow = 0, startCol = 0,
           endCol = 1, endRow = 1\<rparr>"
    by code_simp
  from refresh_coverage [OF fit at, of 1 1] fit at show ?thesis
    by simp
qed

text \<open>
  C3, at the failing input. \<open>table_empty_row\<close> has two row nodes; the first has no cell
  and no span reaches it. \<open>refresh\<close> gives \<open>rows\<close> one entry only, the row object of the
  second row node, with index 1, stored at position 0; no entry with empty columns is
  made for the first row node.
\<close>

theorem refresh_skips_empty_row:
  "length (physical_rows table_empty_row) = 2 \<and>
   rows (refresh (new_GoogTable table_empty_row)) =
     [\<lparr>index = 1, row_element = Some 102,
       columns = [Some \<lparr>element = 1, colSpan = 1, rowSpan = 1, startRow = 1, startCol = 0,
                        endCol = 0, endRow = 1\<rparr>]\<rparr>]"
  by code_simp

section \<open>Facts about the span setters\<close>

text \<open>
  C10. A span setter called with the span the cell already has changes nothing: the
  node's attribute is neither written nor removed (the tree is returned as it was) and
  the cell object, with its spans and end coordinates, is returned as it was.
\<close>

theorem setSpan_same_value_noop:
  "setColSpan (colSpan cell) (cell, tbl) = (cell, tbl) \<and>
   setRowSpan (rowSpan cell) (cell, tbl) = (cell, tbl)"
  by (simp add: setColSpan_def setRowSpan_def)

section \<open>Facts about mergeCells\<close>

text \<open>
  C6. A merge rectangle that is a single position (\<open>startRow = endRow\<close> and
  \<open>startCol = endCol\<close>) makes \<open>mergeCells\<close> return false with the table object, grid
  and tree, unchanged.
\<close>

theorem mergeCells_single_position:
  "mergeCells this r c r c = Inr (False, this)"
  by (simp add: mergeCells_def)







subsection \<open>The tree after one node operation\<close>

lemma all_nodes_update_node:
  "all_nodes (update_node r f tbl) = map (\<lambda>n. if nid n = r then f n else n) (all_nodes tbl)"
  by (simp add: all_nodes_def all_rows_def update_node_def map_tr_def map_concat comp_def)

lemma all_nodes_removeChild:
  "all_nodes (removeChild r tbl) = filter (\<lambda>n. nid n \<noteq> r) (all_nodes tbl)"
  by (simp add: all_nodes_def all_rows_def removeChild_def map_tr_def map_concat comp_def
      filter_concat)

lemma find_update:
  assumes "\<And>n. nid (f n) = nid n"
  shows "find (\<lambda>n. nid n = r') (map (\<lambda>n. if nid n = r then f n else n) xs) =
     map_option (\<lambda>n. if nid n = r then f n else n) (find (\<lambda>n. nid n = r') xs)"
  using assms by (induction xs) auto

lemma find_remove:
  "find (\<lambda>n. nid n = r') (filter (\<lambda>n. nid n \<noteq> r) xs) =
     (if r' = r then None else find (\<lambda>n. nid n = r') xs)"
  by (induction xs) auto

lemma lookup_update_node:
  assumes "\<And>n. nid (f n) = nid n"
  shows "lookup_node (update_node r f tbl) r' =
     map_option (\<lambda>n. if nid n = r then f n else n) (lookup_node tbl r')"
  by (simp add: lookup_node_def all_nodes_update_node find_update [OF assms])

lemma lookup_nid: "lookup_node tbl r = Some n \<Longrightarrow> nid n = r"
  by (auto simp: lookup_node_def find_Some_iff)

lemma lookup_removeChild:
  "lookup_node (removeChild r tbl) r' = (if r' = r then None else lookup_node tbl r')"
  by (simp add: lookup_node_def all_nodes_removeChild find_remove)

lemma lookup_appendChild:
  "lookup_node (appendChild r ch tbl) r' =
     map_option (\<lambda>n. if nid n = r then n\<lparr>childNodes := childNodes n @ [ch]\<rparr> else n)
       (lookup_node tbl r')"
  by (simp add: appendChild_def lookup_update_node)

lemma childNodes_appendChild:
  "childNodes_of (appendChild r ch tbl) r' =
     (if r' = r \<and> \<not> detached tbl r then childNodes_of tbl r @ [ch] else childNodes_of tbl r')"
proof (cases "lookup_node tbl r'")
  case None
  then show ?thesis
    by (auto simp: childNodes_of_def detached_def lookup_appendChild)
next
  case (Some n)
  then have "nid n = r'" by (rule lookup_nid)
  with Some show ?thesis
    by (auto simp: childNodes_of_def detached_def lookup_appendChild)
qed

lemma detached_appendChild: "detached (appendChild r ch tbl) r' = detached tbl r'"
  by (simp add: detached_def lookup_appendChild)

lemma lookup_moveFirstChild_other:
  "r' \<noteq> td \<Longrightarrow> lookup_node (moveFirstChild td targetTd ch tbl) r' =
     map_option (\<lambda>n. if nid n = targetTd then n\<lparr>childNodes := childNodes n @ [ch]\<rparr> else n)
       (lookup_node tbl r')"
  by (cases "lookup_node tbl r'")
    (auto simp: moveFirstChild_def lookup_appendChild lookup_update_node dest: lookup_nid)

lemma moveFirstChild_target:
  "td \<noteq> targetTd \<Longrightarrow> \<not> detached tbl targetTd \<Longrightarrow>
   childNodes_of (moveFirstChild td targetTd ch tbl) targetTd = childNodes_of tbl targetTd @ [ch]"
  by (auto simp: childNodes_of_def detached_def lookup_moveFirstChild_other dest: lookup_nid
      split: option.splits)

lemma detached_moveFirstChild:
  "detached (moveFirstChild td targetTd ch tbl) r' = detached tbl r'"
  by (simp add: detached_def moveFirstChild_def lookup_appendChild lookup_update_node)

lemma fold_moveFirstChild:
  "td \<noteq> targetTd \<Longrightarrow> \<not> detached tbl targetTd \<Longrightarrow>
   childNodes_of (fold (moveFirstChild td targetTd) cs tbl) targetTd =
     childNodes_of tbl targetTd @ cs \<and>
   (\<forall>r'. detached (fold (moveFirstChild td targetTd) cs tbl) r' = detached tbl r')"
proof (induction cs arbitrary: tbl)
  case Nil
  then show ?case by simp
next
  case (Cons ch cs)
  then show ?case
    by (simp add: moveFirstChild_target detached_moveFirstChild)
qed

lemma childNodes_removeChild:
  "childNodes_of (removeChild r tbl) r' = (if r' = r then [] else childNodes_of tbl r')"
  by (simp add: childNodes_of_def lookup_removeChild)

lemma nodeType_text: "nodeType x = 3 \<longleftrightarrow> (\<exists>s. x = TextNode s)"
  by (cases x) auto

lemma lastChildIsText_iff:
  "lastChildIsText tbl r \<longleftrightarrow>
     childNodes_of tbl r \<noteq> [] \<and> (\<exists>s. last (childNodes_of tbl r) = TextNode s)"
  by (cases "childNodes_of tbl r") (simp_all add: lastChildIsText_def nodeType_text)

text \<open>
  One turn of the merging loop for a cell whose node is still in the tree and is not
  the target's node: the target's content afterwards is its content before, then a
  \<^verbatim>\<open>br\<close> element if and only if that content was not empty and ended in a text node,
  then the content of the cell's node; and the cell's node is no longer in the tree.
\<close>

lemma mergeStep_target_content:
  assumes "\<not> detached tbl (element cell)" and "element cell \<noteq> targetTd"
    and "\<not> detached tbl targetTd"
  shows "childNodes_of (mergeStep targetTd cell tbl) targetTd =
           childNodes_of tbl targetTd @
           (if childNodes_of tbl targetTd \<noteq> [] \<and>
               (\<exists>s. last (childNodes_of tbl targetTd) = TextNode s)
            then [createElement_br] else []) @
           childNodes_of tbl (element cell) \<and>
         detached (mergeStep targetTd cell tbl) (element cell)"
proof -
  define tbl1 where
    "tbl1 = (if lastChildIsText tbl targetTd
             then appendChild targetTd createElement_br tbl else tbl)"
  have d1: "\<not> detached tbl1 targetTd"
    using assms by (simp add: tbl1_def detached_appendChild)
  have c1: "childNodes_of tbl1 (element cell) = childNodes_of tbl (element cell)"
    using assms by (simp add: tbl1_def childNodes_appendChild)
  have t1: "childNodes_of tbl1 targetTd = childNodes_of tbl targetTd @
      (if lastChildIsText tbl targetTd then [createElement_br] else [])"
    using assms by (simp add: tbl1_def childNodes_appendChild)
  have step: "mergeStep targetTd cell tbl =
      removeChild (element cell) (moveChildren (element cell) targetTd tbl1)"
    using assms by (simp add: mergeStep_def Let_def tbl1_def)
  have "childNodes_of (moveChildren (element cell) targetTd tbl1) targetTd =
      childNodes_of tbl1 targetTd @ childNodes_of tbl1 (element cell)"
    unfolding moveChildren_def using fold_moveFirstChild [OF assms(2) d1] by blast
  then have "childNodes_of (mergeStep targetTd cell tbl) targetTd =
      childNodes_of tbl targetTd @
      (if lastChildIsText tbl targetTd then [createElement_br] else []) @
      childNodes_of tbl (element cell)"
    unfolding step using assms(2) by (simp add: childNodes_removeChild c1 t1)
  moreover have "detached (mergeStep targetTd cell tbl) (element cell)"
    unfolding step by (simp add: detached_def lookup_removeChild)
  ultimately show ?thesis
    by (simp add: lastChildIsText_iff)
qed

subsection \<open>The grid after a merge does not depend on the content of the cells\<close>

lemma new_cell_bare: "new_GoogTableCell (bare_node td) r c = new_GoogTableCell td r c"
  by (simp add: new_GoogTableCell_def bare_node_def colSpan_prop_def rowSpan_prop_def)

lemma cells_bare: "getChildCellElements (bare_tr tr) = map bare_node (getChildCellElements tr)"
  by (simp add: getChildCellElements_def bare_tr_def bare_node_def filter_map comp_def)

lemma nth_js_map: "nth_js (map f xs) i = map_option f (nth_js xs i)"
  by (simp add: nth_js_def)

lemma placeInRow_bare: "placeInRow (map bare_tr trs) = placeInRow trs"
proof -
  have "map_option tr_nid (nth_js (map bare_tr trs) i) = map_option tr_nid (nth_js trs i)" for i
    by (cases "nth_js trs i") (simp_all add: nth_js_map bare_tr_def)
  then show ?thesis
    by (intro ext) (simp add: placeInRow_def Let_def)
qed

lemma cellStep_bare: "cellStep (map bare_tr trs) r ex (bare_node td) = cellStep trs r ex td"
  unfolding cellStep_def Let_def placeCell_def placeInRow_bare new_cell_bare
  by (rule refl)

lemma fold_cellStep_bare:
  "fold (cellStep (map bare_tr trs) r ex) (map bare_node tds) st = fold (cellStep trs r ex) tds st"
  by (induction tds arbitrary: st) (simp_all add: cellStep_bare)

lemma rowStep_bare: "r < length trs \<Longrightarrow> rowStep (map bare_tr trs) r rs = rowStep trs r rs"
  by (simp add: rowStep_def cells_bare fold_cellStep_bare)

lemma fold_rowStep_bare:
  "\<forall>r\<in>set ns. r < length trs \<Longrightarrow> fold (rowStep (map bare_tr trs)) ns rs = fold (rowStep trs) ns rs"
  by (induction ns arbitrary: rs) (simp_all add: rowStep_bare)

lemma filter_tr_bare:
  "filter (\<lambda>child. tr_tagName child = ''TR'') (map bare_tr tbody) =
   map bare_tr (filter (\<lambda>child. tr_tagName child = ''TR'') tbody)"
  by (simp add: filter_map comp_def bare_tr_def)

lemma buildRows_bare: "buildRows (bare tbl) = buildRows tbl"
  by (cases "tBodies tbl")
    (simp_all add: buildRows_def bare_def map_tr_def Let_def filter_tr_bare fold_rowStep_bare)

lemma all_nodes_bare: "all_nodes (bare tbl) = map bare_node (all_nodes tbl)"
  by (simp add: all_nodes_def all_rows_def bare_def map_tr_def bare_tr_def map_concat comp_def)

lemma find_bare:
  "find (\<lambda>n. nid n = r) (map bare_node xs) = map_option bare_node (find (\<lambda>n. nid n = r) xs)"
  by (induction xs) (auto simp: bare_node_def)

lemma lookup_bare: "lookup_node (bare tbl) r = map_option bare_node (lookup_node tbl r)"
  by (simp add: lookup_node_def all_nodes_bare find_bare)

lemma detached_bare: "detached (bare tbl) r = detached tbl r"
  by (simp add: detached_def lookup_bare)

lemma bare_update_content:
  assumes "\<And>n. bare_node (f n) = bare_node n"
  shows "bare (update_node r f tbl) = bare tbl"
  using assms
  by (simp add: bare_def update_node_def map_tr_def bare_tr_def comp_def if_distrib cong: if_cong)

lemma bare_update_attr:
  assumes "\<And>n. bare_node (f n) = f (bare_node n)"
  shows "bare (update_node r f tbl) = update_node r f (bare tbl)"
  using assms
  by (simp add: bare_def update_node_def map_tr_def bare_tr_def comp_def bare_node_def if_distrib cong: if_cong)

lemma bare_removeChild: "bare (removeChild r tbl) = removeChild r (bare tbl)"
  by (simp add: bare_def removeChild_def map_tr_def bare_tr_def comp_def filter_map bare_node_def)

lemma bare_appendChild: "bare (appendChild r ch tbl) = bare tbl"
  by (simp add: appendChild_def bare_update_content bare_node_def)

lemma bare_moveFirstChild: "bare (moveFirstChild td t ch tbl) = bare tbl"
  by (simp add: moveFirstChild_def bare_appendChild bare_update_content bare_node_def)

lemma bare_fold_moveFirstChild: "bare (fold (moveFirstChild td t) cs tbl) = bare tbl"
  by (induction cs arbitrary: tbl) (simp_all add: bare_moveFirstChild)

lemma bare_mergeStep: "bare (mergeStep t c tbl) = dropStep t c (bare tbl)"
  by (simp add: mergeStep_def dropStep_def Let_def detached_bare bare_removeChild moveChildren_def
      bare_fold_moveFirstChild bare_appendChild)

lemma bare_fold_mergeStep: "bare (fold (mergeStep t) cs tbl) = fold (dropStep t) cs (bare tbl)"
  by (induction cs arbitrary: tbl) (simp_all add: bare_mergeStep)

lemma bare_setColSpan:
  "bare (snd (setColSpan v (c, tbl))) = snd (setColSpan v (c, bare tbl)) \<and>
   fst (setColSpan v (c, tbl)) = fst (setColSpan v (c, bare tbl))"
  by (simp add: setColSpan_def Let_def bare_update_attr bare_node_def)

lemma bare_setRowSpan:
  "bare (snd (setRowSpan v (c, tbl))) = snd (setRowSpan v (c, bare tbl)) \<and>
   fst (setRowSpan v (c, tbl)) = fst (setRowSpan v (c, bare tbl))"
  by (simp add: setRowSpan_def Let_def bare_update_attr bare_node_def)

lemma bare_bare: "bare (bare tbl) = bare tbl"
  by (simp add: bare_def map_tr_def bare_tr_def bare_node_def comp_def)

lemma bare_merged_tree:
  "bare (merged_tree t others cs rs tbl) = bare (merged_tree t others cs rs (bare tbl))"
proof -
  have b: "bare (fold (mergeStep (element t)) others (bare tbl)) =
      bare (fold (mergeStep (element t)) others tbl)"
    by (simp add: bare_fold_mergeStep bare_bare)
  obtain c1 t1 where s1: "setColSpan cs (t, fold (mergeStep (element t)) others tbl) = (c1, t1)"
    by (cases "setColSpan cs (t, fold (mergeStep (element t)) others tbl)")
  obtain c2 t2 where s2: "setColSpan cs (t, fold (mergeStep (element t)) others (bare tbl)) = (c2, t2)"
    by (cases "setColSpan cs (t, fold (mergeStep (element t)) others (bare tbl))")
  have "c1 = c2"
    using s1 s2 by (simp add: setColSpan_def Let_def split: if_splits)
  moreover have "bare t1 = bare t2"
    using s1 s2 b bare_setColSpan [of cs t "fold (mergeStep (element t)) others tbl"]
      bare_setColSpan [of cs t "fold (mergeStep (element t)) others (bare tbl)"]
    by simp
  ultimately show ?thesis
    using bare_setRowSpan [of rs c1 t1] bare_setRowSpan [of rs c2 t2]
    by (simp add: merged_tree_def s1 s2)
qed

lemma mergeCells_success:
  assumes "gatherCells (rows this) sr sc er ec (rectangle sr sc er ec) [] = Inr (Some (t # others))"
    and "\<not> (sr = er \<and> sc = ec)"
  shows "mergeCells this sr sc er ec =
     Inr (True, refresh (this\<lparr>table_element :=
                  merged_tree t others (ec - sc + 1) (er - sr + 1) (table_element this)\<rparr>))"
  using assms by (simp add: mergeCells_def merged_tree_def Let_def)

lemma physical_rows_bare: "physical_rows (bare tbl) = map bare_tr (physical_rows tbl)"
  by (cases "tBodies tbl") (simp_all add: physical_rows_def bare_def map_tr_def filter_tr_bare)

lemma cell_nodes_bare: "cell_nodes (bare tbl) = map bare_node (cell_nodes tbl)"
  by (simp add: cell_nodes_def physical_rows_bare comp_def cells_bare map_concat)

lemma length_cell_nodes_bare: "length (cell_nodes tbl) = length (cell_nodes (bare tbl))"
  by (simp add: cell_nodes_bare)

lemma lookup_appendChild_other: "r \<noteq> t \<Longrightarrow> lookup_node (appendChild t ch tbl) r = lookup_node tbl r"
  by (cases "lookup_node tbl r") (auto simp: lookup_appendChild dest: lookup_nid)

lemma lookup_moveFirstChild_frame:
  "r \<noteq> t \<Longrightarrow> r \<noteq> td \<Longrightarrow> lookup_node (moveFirstChild td t ch tbl) r = lookup_node tbl r"
  by (cases "lookup_node tbl r") (auto simp: lookup_moveFirstChild_other dest: lookup_nid)

lemma lookup_fold_moveFirstChild_frame:
  "r \<noteq> t \<Longrightarrow> r \<noteq> td \<Longrightarrow> lookup_node (fold (moveFirstChild td t) cs tbl) r = lookup_node tbl r"
  by (induction cs arbitrary: tbl) (simp_all add: lookup_moveFirstChild_frame)

lemma lookup_mergeStep_frame:
  "r \<noteq> t \<Longrightarrow> r \<noteq> element c \<Longrightarrow> lookup_node (mergeStep t c tbl) r = lookup_node tbl r"
  by (simp add: mergeStep_def Let_def lookup_removeChild moveChildren_def
      lookup_fold_moveFirstChild_frame lookup_appendChild_other)

lemma lookup_fold_mergeStep_frame:
  "r \<noteq> t \<Longrightarrow> r \<notin> element ` set cs \<Longrightarrow>
   lookup_node (fold (mergeStep t) cs tbl) r = lookup_node tbl r"
  by (induction cs arbitrary: tbl) (simp_all add: lookup_mergeStep_frame)

lemma lookup_update_other:
  assumes "\<And>n. nid (f n) = nid n" and "r' \<noteq> r"
  shows "lookup_node (update_node r f tbl) r' = lookup_node tbl r'"
  using assms(2)
  by (cases "lookup_node tbl r'") (auto simp: lookup_update_node [OF assms(1)] dest: lookup_nid)

lemma lookup_setColSpan_frame:
  "r \<noteq> element c \<Longrightarrow> lookup_node (snd (setColSpan v (c, tbl))) r = lookup_node tbl r"
  by (simp add: setColSpan_def Let_def lookup_update_other)

lemma lookup_setRowSpan_frame:
  "r \<noteq> element c \<Longrightarrow> lookup_node (snd (setRowSpan v (c, tbl))) r = lookup_node tbl r"
  by (simp add: setRowSpan_def Let_def lookup_update_other)

lemma element_setColSpan: "element (fst (setColSpan v (c, tbl))) = element c"
  by (simp add: setColSpan_def Let_def updateCoordinates_def)

lemma lookup_merged_tree_frame:
  assumes "r \<noteq> element t" and "r \<notin> element ` set others"
  shows "lookup_node (merged_tree t others cs rs tbl) r = lookup_node tbl r"
proof -
  obtain c1 t1 where s1: "setColSpan cs (t, fold (mergeStep (element t)) others tbl) = (c1, t1)"
    by (cases "setColSpan cs (t, fold (mergeStep (element t)) others tbl)")
  from s1 have e1: "element c1 = element t"
    using element_setColSpan [of cs t "fold (mergeStep (element t)) others tbl"] by simp
  from s1 have "lookup_node t1 r = lookup_node (fold (mergeStep (element t)) others tbl) r"
    using lookup_setColSpan_frame [OF assms(1), of cs "fold (mergeStep (element t)) others tbl"]
    by simp
  with assms have "lookup_node t1 r = lookup_node tbl r"
    by (simp add: lookup_fold_mergeStep_frame)
  then show ?thesis
    using assms(1) e1 by (simp add: merged_tree_def s1 lookup_setRowSpan_frame)
qed

lemma bare_unit_grid: "bare (unit_grid f) = unit_grid (\<lambda>r. [])"
  by (simp add: bare_def map_tr_def bare_tr_def bare_node_def unit_grid_def tr_of_def unit_td_def)

lemma rows_unit_grid: "rows (new_GoogTable (unit_grid f)) = rows (new_GoogTable (unit_grid (\<lambda>r. [])))"
  using buildRows_bare [of "unit_grid f"]
  by (simp add: new_GoogTable_def refresh_def bare_unit_grid)

lemma gather_unit_grid:
  "gatherCells (rows (new_GoogTable (unit_grid f))) 0 0 1 1 (rectangle 0 0 1 1) [] =
     Inr (Some [unit_cell 1 0 0, unit_cell 2 0 1, unit_cell 4 1 0, unit_cell 5 1 1])"
  unfolding rows_unit_grid [of f] by code_simp

lemma merge_unit_grid:
  "mergeCells (new_GoogTable (unit_grid f)) 0 0 1 1 =
     Inr (True, refresh (new_GoogTable (unit_grid f)
       \<lparr>table_element := merged_tree (unit_cell 1 0 0)
           [unit_cell 2 0 1, unit_cell 4 1 0, unit_cell 5 1 1] 2 2 (unit_grid f)\<rparr>))"
  using mergeCells_success [OF gather_unit_grid, of f]
  by (simp add: new_GoogTable_def refresh_def)

lemma bare_merged_unit_grid: "bare (merged_unit_grid f) = bare (merged_unit_grid (\<lambda>r. []))"
  using bare_merged_tree [of "unit_cell 1 0 0"
      "[unit_cell 2 0 1, unit_cell 4 1 0, unit_cell 5 1 1]" 2 2 "unit_grid f"]
    bare_merged_tree [of "unit_cell 1 0 0"
      "[unit_cell 2 0 1, unit_cell 4 1 0, unit_cell 5 1 1]" 2 2 "unit_grid (\<lambda>r. [])"]
  by (simp add: merged_unit_grid_def bare_unit_grid)

lemma buildRows_merged_empty: "buildRows (merged_unit_grid (\<lambda>r. [])) = merged_rows"
  by code_simp

lemma buildRows_merged_unit_grid: "buildRows (merged_unit_grid f) = merged_rows"
  using buildRows_bare [of "merged_unit_grid f"] buildRows_bare [of "merged_unit_grid (\<lambda>r. [])"]
  by (simp add: bare_merged_unit_grid [of f] buildRows_merged_empty)

lemma cell_nodes_unit_grid: "length (cell_nodes (unit_grid f)) = 9"
proof -
  have "length (cell_nodes (unit_grid (\<lambda>r. []))) = 9" by code_simp
  then show ?thesis
    by (simp add: length_cell_nodes_bare [of "unit_grid f"] bare_unit_grid)
qed

lemma cell_nodes_merged_unit_grid: "length (cell_nodes (merged_unit_grid f)) = 6"
proof -
  have "length (cell_nodes (merged_unit_grid (\<lambda>r. []))) = 6" by code_simp
  then show ?thesis
    by (simp add: length_cell_nodes_bare [of "merged_unit_grid f"]
        length_cell_nodes_bare [of "merged_unit_grid (\<lambda>r. [])"] bare_merged_unit_grid [of f])
qed

lemma untouched_unit_grid:
  "r \<in> {3, 6, 7, 8, 9} \<Longrightarrow> lookup_node (merged_unit_grid f) r = lookup_node (unit_grid f) r"
  unfolding merged_unit_grid_def
  by (rule lookup_merged_tree_frame) (auto simp: unit_cell_def)

lemma outside_merged_rows:
  "filter (outside_region 0 0 1 1) (grid_cells merged_rows) =
     [unit_cell 3 0 2, unit_cell 6 1 2, unit_cell 7 2 0, unit_cell 8 2 1, unit_cell 9 2 2]"
  by code_simp

lemma inside_merged_rows:
  "filter (\<lambda>c. \<not> outside_region 0 0 1 1 c) (grid_cells merged_rows) =
     [\<lparr>element = 1, colSpan = 2, rowSpan = 2, startRow = 0, startCol = 0,
       endCol = 1, endRow = 1\<rparr>]"
  by code_simp

lemma layout_merged_rows:
  "map (\<lambda>row. map (map_option element) (columns row)) merged_rows =
     [[Some 1, Some 1, Some 3], [Some 1, Some 1, Some 6], [Some 7, Some 8, Some 9]]"
  by code_simp

subsection \<open>The content of the target after a merge\<close>

lemma endsInText_iff: "endsInText cs \<longleftrightarrow> cs \<noteq> [] \<and> (\<exists>s. last cs = TextNode s)"
  by (cases cs) (auto simp: endsInText_def split: content.splits)

lemma lastChildIsText_endsInText: "lastChildIsText tbl r = endsInText (childNodes_of tbl r)"
  by (simp add: lastChildIsText_iff endsInText_iff)

lemma mergeStep_skip:
  "detached tbl (element c) \<or> element c = t \<Longrightarrow> mergeStep t c tbl = tbl"
  by (simp add: mergeStep_def)

lemma detached_fold_moveFirstChild:
  "detached (fold (moveFirstChild td t) cs tbl) r = detached tbl r"
  by (induction cs arbitrary: tbl) (simp_all add: detached_moveFirstChild)

lemma detached_mergeStep:
  "detached (mergeStep t c tbl) r = (detached tbl r \<or> (r = element c \<and> r \<noteq> t))"
  by (auto simp: mergeStep_def Let_def detached_def lookup_removeChild moveChildren_def
      detached_fold_moveFirstChild [unfolded detached_def] detached_appendChild [unfolded detached_def])

lemma childNodes_mergeStep_frame:
  "r \<noteq> t \<Longrightarrow> r \<noteq> element c \<Longrightarrow> childNodes_of (mergeStep t c tbl) r = childNodes_of tbl r"
  by (simp add: childNodes_of_def lookup_mergeStep_frame)


lemma set_firsts: "set (firsts xs) = set xs"
  by (induction xs rule: firsts.induct) auto

lemma mergeStep_target:
  assumes "\<not> detached tbl (element c)" and "element c \<noteq> t" and "\<not> detached tbl t"
  shows "childNodes_of (mergeStep t c tbl) t =
           appendContent (childNodes_of tbl t) (childNodes_of tbl (element c))"
  using mergeStep_target_content [OF assms]
  by (simp add: appendContent_def endsInText_iff createElement_br_def)

lemma fold_mergeStep_content:
  "\<not> detached tbl t \<Longrightarrow>
   childNodes_of (fold (mergeStep t) cs tbl) t =
     fold (\<lambda>r acc. appendContent acc (childNodes_of tbl r)) (absorbedNodes tbl t cs)
       (childNodes_of tbl t)"
proof (induction cs arbitrary: tbl)
  case Nil
  then show ?case by (simp add: absorbedNodes_def)
next
  case (Cons c cs)
  show ?case
  proof (cases "detached tbl (element c) \<or> element c = t")
    case True
    then have "mergeStep t c tbl = tbl" by (rule mergeStep_skip)
    moreover from True have "absorbedNodes tbl t (c # cs) = absorbedNodes tbl t cs"
      by (auto simp: absorbedNodes_def)
    ultimately show ?thesis using Cons by simp
  next
    case False
    let ?tbl = "mergeStep t c tbl"
    from False Cons.prems have att: "\<not> detached ?tbl t"
      by (simp add: detached_mergeStep)
    have nodes: "absorbedNodes ?tbl t cs =
        firsts (filter (\<lambda>y. y \<noteq> element c)
          (filter (\<lambda>r. r \<noteq> t \<and> \<not> detached tbl r) (map element cs)))"
      using False
      by (auto simp: absorbedNodes_def detached_mergeStep intro!: arg_cong [where f = firsts]
          filter_cong)
    then have all: "absorbedNodes tbl t (c # cs) = element c # absorbedNodes ?tbl t cs"
      using False by (simp add: absorbedNodes_def)
    have same: "childNodes_of ?tbl r = childNodes_of tbl r" if "r \<in> set (absorbedNodes ?tbl t cs)" for r
    proof -
      from that have "r \<noteq> t" "r \<noteq> element c"
        by (auto simp: nodes set_firsts)
      then show ?thesis by (rule childNodes_mergeStep_frame)
    qed
    have "childNodes_of (fold (mergeStep t) (c # cs) tbl) t =
        fold (\<lambda>r acc. appendContent acc (childNodes_of ?tbl r)) (absorbedNodes ?tbl t cs)
          (childNodes_of ?tbl t)"
      using Cons.IH [OF att] by simp
    also have "\<dots> = fold (\<lambda>r acc. appendContent acc (childNodes_of tbl r)) (absorbedNodes ?tbl t cs)
          (childNodes_of ?tbl t)"
      by (rule fold_cong) (simp_all add: same)
    also have "childNodes_of ?tbl t =
        appendContent (childNodes_of tbl t) (childNodes_of tbl (element c))"
      using False Cons.prems by (simp add: mergeStep_target)
    finally show ?thesis by (simp add: all)
  qed
qed

lemma detached_fold_mergeStep:
  "detached (fold (mergeStep t) cs tbl) r =
     (detached tbl r \<or> (r \<noteq> t \<and> r \<in> element ` set cs))"
  by (induction cs arbitrary: tbl) (auto simp: detached_mergeStep)

lemma lookup_setSpan:
  "lookup_node (snd (setColSpan v (c, tbl))) r =
     map_option (\<lambda>n. if v \<noteq> colSpan c \<and> nid n = element c
        then n\<lparr>colSpanAttr := (if v > 1 then Some (nat v) else None)\<rparr> else n) (lookup_node tbl r)"
  "lookup_node (snd (setRowSpan v (c, tbl))) r =
     map_option (\<lambda>n. if v \<noteq> rowSpan c \<and> nid n = element c
        then n\<lparr>rowSpanAttr := (if v > 1 then Some (nat v) else None)\<rparr> else n) (lookup_node tbl r)"
  by (cases "lookup_node tbl r"; simp add: setColSpan_def setRowSpan_def Let_def lookup_update_node)+

lemma childNodes_setSpan:
  "childNodes_of (snd (setColSpan v (c, tbl))) r = childNodes_of tbl r"
  "childNodes_of (snd (setRowSpan v (c, tbl))) r = childNodes_of tbl r"
  by (cases "lookup_node tbl r"; simp add: childNodes_of_def lookup_setSpan)+

lemma detached_setSpan:
  "detached (snd (setColSpan v (c, tbl))) r = detached tbl r"
  "detached (snd (setRowSpan v (c, tbl))) r = detached tbl r"
  by (simp_all add: detached_def lookup_setSpan)

lemma childNodes_merged_tree:
  "childNodes_of (merged_tree t others cs rs tbl) r =
     childNodes_of (fold (mergeStep (element t)) others tbl) r"
proof -
  obtain c1 t1 where s1: "setColSpan cs (t, fold (mergeStep (element t)) others tbl) = (c1, t1)"
    by (cases "setColSpan cs (t, fold (mergeStep (element t)) others tbl)")
  from s1 have "childNodes_of t1 r = childNodes_of (fold (mergeStep (element t)) others tbl) r"
    using childNodes_setSpan(1) [of cs t "fold (mergeStep (element t)) others tbl" r] by simp
  then show ?thesis
    by (simp add: merged_tree_def s1 childNodes_setSpan)
qed

lemma detached_merged_tree:
  "detached (merged_tree t others cs rs tbl) r =
     detached (fold (mergeStep (element t)) others tbl) r"
proof -
  obtain c1 t1 where s1: "setColSpan cs (t, fold (mergeStep (element t)) others tbl) = (c1, t1)"
    by (cases "setColSpan cs (t, fold (mergeStep (element t)) others tbl)")
  from s1 have "detached t1 r = detached (fold (mergeStep (element t)) others tbl) r"
    using detached_setSpan(1) [of cs t "fold (mergeStep (element t)) others tbl" r] by simp
  then show ?thesis
    by (simp add: merged_tree_def s1 detached_setSpan)
qed

lemma mergeCells_content_attached:
  assumes ok: "mergeCells this sr sc er ec = Inr (True, g)"
    and cells: "gatherCells (rows this) sr sc er ec (rectangle sr sc er ec) [] =
                  Inr (Some (targetCell # others))"
    and att: "\<not> detached (table_element this) (element targetCell)"
  shows "childNodes_of (table_element g) (element targetCell) =
           fold (\<lambda>r acc. appendContent acc (childNodes_of (table_element this) r))
             (absorbedNodes (table_element this) (element targetCell) others)
             (childNodes_of (table_element this) (element targetCell)) \<and>
         (\<forall>r\<in>set (absorbedNodes (table_element this) (element targetCell) others).
            detached (table_element g) r)"
proof -
  from ok have ns: "\<not> (sr = er \<and> sc = ec)"
    by (auto simp: mergeCells_def)
  from mergeCells_success [OF cells ns] ok
  have g: "table_element g =
      merged_tree targetCell others (ec - sc + 1) (er - sr + 1) (table_element this)"
    by (auto simp: refresh_def)
  have "r \<in> element ` set others \<and> r \<noteq> element targetCell"
    if "r \<in> set (absorbedNodes (table_element this) (element targetCell) others)" for r
    using that by (auto simp: absorbedNodes_def set_firsts)
  then show ?thesis
    using att
    by (auto simp: g childNodes_merged_tree detached_merged_tree fold_mergeStep_content
        detached_fold_mergeStep)
qed

text \<open>
  The cells \<open>refresh\<close> puts into the grid wrap nodes of the tree it read, so the target
  of a merge on a refreshed table object is in the tree.
\<close>

lemma set_fold_update:
  "set (fold (\<lambda>j cs. cs[n + j := x]) js cs) \<subseteq> insert x (set cs)"
proof (induction js arbitrary: cs)
  case Nil
  then show ?case by auto
next
  case (Cons j js)
  have "set (fold (\<lambda>j cs. cs[n + j := x]) js (cs[n + j := x])) \<subseteq> insert x (set (cs[n + j := x]))"
    by (rule Cons.IH)
  also have "\<dots> \<subseteq> insert x (set cs)"
    using set_update_subset_insert [of cs "n + j" x] by auto
  finally show ?case by simp
qed

lemma set_setColumns:
  "set (setColumns cols n cell) \<subseteq> insert (Some cell) (insert None (set cols))"
proof -
  let ?cols1 = "if length cols < n + nat (colSpan cell)
      then cols @ replicate (n + nat (colSpan cell) - length cols) None else cols"
  have "set ?cols1 \<subseteq> insert None (set cols)" by auto
  with set_fold_update [of n "Some cell" "[0..<nat (colSpan cell)]" ?cols1]
  show ?thesis
    unfolding setColumns_def Let_def by blast
qed

lemma cells_from_placeInRow:
  assumes "cells_from N rs" "element cell \<in> N"
  shows "cells_from N (placeInRow trs rowNum columnNum cell i rs)"
proof -
  define rs1 where "rs1 = (if rowNum + i < length rs then rs
       else rs @ [new_GoogTableRow (map_option tr_nid (nth_js trs (int (rowNum + i))))
                              (int (rowNum + i))])"
  define k where "k = (if rowNum + i < length rs then rowNum + i else length rs)"
  have k: "k < length rs1" by (simp add: rs1_def k_def)
  have c1: "cells_from N rs1"
    using assms(1) by (auto simp: rs1_def cells_from_def new_GoogTableRow_def)
  have eq: "placeInRow trs rowNum columnNum cell i rs =
      rs1[k := (rs1 ! k)\<lparr>columns := setColumns (columns (rs1 ! k)) columnNum cell\<rparr>]"
    by (simp add: placeInRow_def Let_def rs1_def k_def)
  have new: "element c \<in> N" if "Some c \<in> set (setColumns (columns (rs1 ! k)) columnNum cell)" for c
  proof -
    from that set_setColumns [of "columns (rs1 ! k)" columnNum cell]
    have "c = cell \<or> Some c \<in> set (columns (rs1 ! k))" by auto
    with c1 k assms(2) show ?thesis
      by (auto simp: cells_from_def)
  qed
  show ?thesis
    unfolding eq cells_from_def
  proof (intro ballI allI impI)
    fix row c
    assume "row \<in> set (rs1[k := (rs1 ! k)\<lparr>columns := setColumns (columns (rs1 ! k)) columnNum cell\<rparr>])"
      and c: "Some c \<in> set (columns row)"
    then have "row = (rs1 ! k)\<lparr>columns := setColumns (columns (rs1 ! k)) columnNum cell\<rparr> \<or> row \<in> set rs1"
      using set_update_subset_insert [of rs1 k] by auto
    with c c1 new show "element c \<in> N"
      by (auto simp: cells_from_def)
  qed
qed

lemma cells_from_placeCell:
  assumes "cells_from N rs" "element cell \<in> N"
  shows "cells_from N (placeCell trs rowNum columnNum cell rs)"
proof -
  have "cells_from N (fold (placeInRow trs rowNum columnNum cell) is rs)" for "is"
    using assms(1) by (induction "is" arbitrary: rs) (simp_all add: cells_from_placeInRow assms(2))
  then show ?thesis by (simp add: placeCell_def)
qed

lemma cells_from_cells:
  "cells_from N (fst st) \<Longrightarrow> nid ` set tds \<subseteq> N \<Longrightarrow>
   cells_from N (fst (fold (cellStep trs rowNum ex) tds st))"
proof (induction tds arbitrary: st)
  case Nil
  then show ?case by simp
next
  case (Cons td tds)
  have "element (new_GoogTableCell td r c) = nid td" for r c
    by (simp add: new_GoogTableCell_def updateCoordinates_def)
  with Cons.prems have "cells_from N (fst (cellStep trs rowNum ex td st))"
    by (simp add: cellStep_def Let_def cells_from_placeCell)
  with Cons show ?case by simp
qed

lemma cells_from_rows:
  "cells_from N rs \<Longrightarrow> \<forall>n\<in>set ns. n < length trs \<Longrightarrow>
   (\<forall>tr\<in>set trs. nid ` set (tr_childNodes tr) \<subseteq> N) \<Longrightarrow>
   cells_from N (fold (rowStep trs) ns rs)"
proof (induction ns arbitrary: rs)
  case Nil
  then show ?case by simp
next
  case (Cons n ns)
  from Cons.prems have "trs ! n \<in> set trs" by simp
  with Cons.prems have "nid ` set (tr_childNodes (trs ! n)) \<subseteq> N" by blast
  then have "nid ` set (getChildCellElements (trs ! n)) \<subseteq> N"
    by (auto simp: getChildCellElements_def)
  with Cons.prems have "cells_from N (rowStep trs n rs)"
    by (simp add: rowStep_def cells_from_cells)
  with Cons show ?case by simp
qed

lemma cells_from_buildRows: "cells_from (nid ` set (all_nodes tbl)) (buildRows tbl)"
proof (cases "tBodies tbl")
  case Nil
  then show ?thesis by (simp add: buildRows_def cells_from_def)
next
  case (Cons tbody others)
  have "\<forall>tr\<in>set (filter (\<lambda>child. tr_tagName child = ''TR'') tbody).
      nid ` set (tr_childNodes tr) \<subseteq> nid ` set (all_nodes tbl)"
    using Cons by (auto simp: all_nodes_def all_rows_def)
  moreover have "cells_from (nid ` set (all_nodes tbl)) []"
    by (simp add: cells_from_def)
  ultimately have "cells_from (nid ` set (all_nodes tbl))
      (fold (rowStep (filter (\<lambda>child. tr_tagName child = ''TR'') tbody))
         [0..<length (filter (\<lambda>child. tr_tagName child = ''TR'') tbody)] [])"
    by (intro cells_from_rows) simp_all
  then show ?thesis
    using Cons by (simp add: buildRows_def Let_def)
qed

lemma cell_at_entry:
  "cell_at rs i j = Some c \<Longrightarrow> \<exists>row\<in>set rs. Some c \<in> set (columns row)"
proof -
  assume "cell_at rs i j = Some c"
  then have "0 \<le> i" "nat i < length rs" "0 \<le> j" "nat j < length (columns (rs ! nat i))"
    "columns (rs ! nat i) ! nat j = Some c"
    by (auto simp: cell_at_def nth_js_def split: option.splits if_splits)
  then have "rs ! nat i \<in> set rs" "Some c \<in> set (columns (rs ! nat i))"
    by (auto simp: in_set_conv_nth)
  then show ?thesis by blast
qed

lemma gatherCells_cells:
  "gatherCells rs sr sc er ec ps acc = Inr (Some cells) \<Longrightarrow> c \<in> set cells \<Longrightarrow>
   c \<in> set acc \<or> (\<exists>row\<in>set rs. Some c \<in> set (columns row))"
proof (induction ps arbitrary: acc)
  case Nil
  then show ?case by simp
next
  case (Cons p ps)
  show ?case
  proof (cases "cell_at rs (fst p) (snd p)")
    case None
    with Cons.prems show ?thesis by simp
  next
    case (Some a)
    with Cons.prems have run: "gatherCells rs sr sc er ec ps (acc @ [a]) = Inr (Some cells)"
      by (simp split: if_splits)
    from Cons.IH [OF run Cons.prems(2)] cell_at_entry [OF Some] show ?thesis
      by auto
  qed
qed

lemma detached_iff: "detached tbl r \<longleftrightarrow> r \<notin> nid ` set (all_nodes tbl)"
  by (auto simp: detached_def lookup_node_def find_None_iff)

lemma target_attached:
  assumes "rows this = buildRows (table_element this)"
    and "gatherCells (rows this) sr sc er ec ps [] = Inr (Some (targetCell # others))"
  shows "\<not> detached (table_element this) (element targetCell)"
proof -
  from gatherCells_cells [OF assms(2), of targetCell]
  obtain row where "row \<in> set (rows this)" "Some targetCell \<in> set (columns row)"
    by auto
  with cells_from_buildRows [of "table_element this"] assms(1) show ?thesis
    by (auto simp: cells_from_def detached_iff)
qed

text \<open>
  C9. A successful \<open>mergeCells\<close> on a table object as \<open>refresh\<close> leaves it appends to the
  target the content of every distinct other cell of the rectangle whose node is in the
  tree, in the order of the scan, by the rule \<open>appendContent\<close>: at each such cell a
  line-break element is put before the appended content if and only if the target's
  content at that moment ends in a text node. Each of these cells' nodes is then no
  longer in the tree.
\<close>

theorem mergeCells_absorbs_content:
  assumes ok: "mergeCells (refresh this) sr sc er ec = Inr (True, g)"
    and cells: "gatherCells (rows (refresh this)) sr sc er ec (rectangle sr sc er ec) [] =
                  Inr (Some (targetCell # others))"
  shows "childNodes_of (table_element g) (element targetCell) =
           fold (\<lambda>r acc. appendContent acc (childNodes_of (table_element this) r))
             (absorbedNodes (table_element this) (element targetCell) others)
             (childNodes_of (table_element this) (element targetCell)) \<and>
         (\<forall>r\<in>set (absorbedNodes (table_element this) (element targetCell) others).
            detached (table_element g) r)"
proof -
  have sync: "rows (refresh this) = buildRows (table_element (refresh this))"
    by (simp add: refresh_def)
  have te: "table_element (refresh this) = table_element this"
    by (simp add: refresh_def)
  from target_attached [OF sync cells]
  have att: "\<not> detached (table_element (refresh this)) (element targetCell)" .
  from mergeCells_content_attached [OF ok cells att] show ?thesis
    unfolding te .
qed

theorem mergeCells_absorbs_content_witness:
  "mergeCells (new_GoogTable (unit_grid mixed_content)) 0 0 1 1 =
     Inr (True, refresh (new_GoogTable (unit_grid mixed_content)
                  \<lparr>table_element := merged_unit_grid mixed_content\<rparr>)) \<and>
   absorbedNodes (unit_grid mixed_content) 1
     [unit_cell 2 0 1, unit_cell 4 1 0, unit_cell 5 1 1] = [2, 4, 5] \<and>
   childNodes_of (merged_unit_grid mixed_content) 1 =
     [TextNode ''a'', ElementNode ''BR'' [], ElementNode ''B'' [TextNode ''b''],
      TextNode ''e''] \<and>
   detached (merged_unit_grid mixed_content) 2 \<and>
   detached (merged_unit_grid mixed_content) 4 \<and>
   detached (merged_unit_grid mixed_content) 5"
proof -
  let ?start = "\<lparr>table_element = unit_grid mixed_content, rows = []\<rparr>"
  let ?res = "refresh (new_GoogTable (unit_grid mixed_content)
                  \<lparr>table_element := merged_unit_grid mixed_content\<rparr>)"
  have new: "refresh ?start = new_GoogTable (unit_grid mixed_content)"
    by (simp add: new_GoogTable_def)
  have te: "table_element ?start = unit_grid mixed_content"
    "table_element ?res = merged_unit_grid mixed_content"
    by (simp_all add: refresh_def)
  have ok: "mergeCells (refresh ?start) 0 0 1 1 = Inr (True, ?res)"
    unfolding new using merge_unit_grid [of mixed_content] by (simp add: merged_unit_grid_def)
  have cells: "gatherCells (rows (refresh ?start)) 0 0 1 1 (rectangle 0 0 1 1) [] =
      Inr (Some (unit_cell 1 0 0 # [unit_cell 2 0 1, unit_cell 4 1 0, unit_cell 5 1 1]))"
    unfolding new by (rule gather_unit_grid)
  have el: "element (unit_cell 1 0 0) = 1"
    by (simp add: unit_cell_def)
  have nodes: "absorbedNodes (unit_grid mixed_content) 1
     [unit_cell 2 0 1, unit_cell 4 1 0, unit_cell 5 1 1] = [2, 4, 5]"
    by code_simp
  have content: "fold (\<lambda>r acc. appendContent acc (childNodes_of (unit_grid mixed_content) r))
      [2, 4, 5] (childNodes_of (unit_grid mixed_content) 1) =
     [TextNode ''a'', ElementNode ''BR'' [], ElementNode ''B'' [TextNode ''b''],
      TextNode ''e'']"
    by code_simp
  note main = mergeCells_absorbs_content [OF ok cells, unfolded te el nodes content]
  note ok1 = ok [unfolded new]
  from main ok1 nodes show ?thesis
    by simp
qed

text \<open>
  C7, as stated, fails on its count of the cells outside the merged region: in the
  three by three grid \<open>table_3x3\<close> the merge returns true and the grid then has five
  cells outside rows 0 to 1, columns 0 to 1, not three.
\<close>

theorem mergeCells_3x3_counterexample:
  "(case mergeCells (new_GoogTable table_3x3) 0 0 1 1 of
      Inl e \<Rightarrow> False
    | Inr (ok, g) \<Rightarrow>
        ok \<and> length (filter (outside_region 0 0 1 1) (grid_cells (rows g))) = 5 \<and>
        length (filter (outside_region 0 0 1 1) (grid_cells (rows g))) \<noteq> 3)"
  by code_simp

text \<open>
  C7, amended. Starting from the three by three grid of unit cells, whatever the cells
  contain, \<open>mergeCells\<close> on rows 0 to 1, columns 0 to 1 returns true; the region then
  holds exactly one cell, at (0,0) with \<open>rowSpan = 2\<close> and \<open>colSpan = 2\<close>; the five cells
  outside the region are unit cells whose nodes are as they were; and the number of
  cell nodes goes from 9 to 6.
\<close>

theorem mergeCells_unit_grid:
  "(case mergeCells (new_GoogTable (unit_grid f)) 0 0 1 1 of
      Inl e \<Rightarrow> False
    | Inr (ok, g) \<Rightarrow>
        ok \<and>
        layout g =
          [[Some 1, Some 1, Some 3], [Some 1, Some 1, Some 6], [Some 7, Some 8, Some 9]] \<and>
        filter (\<lambda>c. \<not> outside_region 0 0 1 1 c) (grid_cells (rows g)) =
          [\<lparr>element = 1, colSpan = 2, rowSpan = 2, startRow = 0, startCol = 0,
            endCol = 1, endRow = 1\<rparr>] \<and>
        map element (filter (outside_region 0 0 1 1) (grid_cells (rows g))) =
          [3, 6, 7, 8, 9] \<and>
        list_all (\<lambda>c. colSpan c = 1 \<and> rowSpan c = 1 \<and>
                    lookup_node (table_element g) (element c) =
                      lookup_node (unit_grid f) (element c))
          (filter (outside_region 0 0 1 1) (grid_cells (rows g))) \<and>
        length (cell_nodes (unit_grid f)) = 9 \<and>
        length (cell_nodes (table_element g)) = 6)"
proof -
  define g where "g = refresh (new_GoogTable (unit_grid f)
       \<lparr>table_element := merged_unit_grid f\<rparr>)"
  have m: "mergeCells (new_GoogTable (unit_grid f)) 0 0 1 1 = Inr (True, g)"
    using merge_unit_grid [of f] by (simp add: g_def merged_unit_grid_def)
  have r: "rows g = merged_rows"
    by (simp add: g_def refresh_def buildRows_merged_unit_grid)
  have t: "table_element g = merged_unit_grid f"
    by (simp add: g_def refresh_def)
  have "layout g =
          [[Some 1, Some 1, Some 3], [Some 1, Some 1, Some 6], [Some 7, Some 8, Some 9]]"
    by (simp add: layout_def r layout_merged_rows)
  moreover have "list_all (\<lambda>c. colSpan c = 1 \<and> rowSpan c = 1 \<and>
                    lookup_node (table_element g) (element c) =
                      lookup_node (unit_grid f) (element c))
          (filter (outside_region 0 0 1 1) (grid_cells (rows g)))"
    by (simp add: r t outside_merged_rows unit_cell_def untouched_unit_grid)
  moreover have "map element (filter (outside_region 0 0 1 1) (grid_cells (rows g))) =
          [3, 6, 7, 8, 9]"
    by (simp add: r outside_merged_rows unit_cell_def)
  ultimately show ?thesis
    by (simp add: m r t inside_merged_rows cell_nodes_unit_grid cell_nodes_merged_unit_grid)
qed

section \<open>Facts about splitCell\<close>

subsection \<open>The list a split returns\<close>

lemma fold_splitStep_None: "fold (splitStep r c) ps None = None"
  by (induction ps) (simp_all add: splitStep_def)

lemma fold_splitStep_Inl: "fold (splitStep r c) ps (Some (Inl e)) = Some (Inl e)"
  by (induction ps) (simp_all add: splitStep_def)

lemma rows_insertCellElement:
  "insertCellElement this td r c = Some (Inr g) \<Longrightarrow> rows g = rows this"
  by (auto simp: insertCellElement_def split: option.splits sum.splits)

lemma fold_splitStep_Inr:
  "fold (splitStep r c) ps (Some (Inr (g, tds, n))) = Some (Inr (g', tds', n')) \<Longrightarrow>
   tds' = tds @ map (\<lambda>k. n + k) [0..<length ps] \<and> n' = n + length ps \<and> rows g' = rows g"
proof (induction ps arbitrary: g tds n)
  case Nil
  then show ?case by simp
next
  case (Cons p ps)
  let ?st = "splitStep r c p (Some (Inr (g, tds, n)))"
  from Cons.prems have run: "fold (splitStep r c) ps ?st = Some (Inr (g', tds', n'))"
    by simp
  show ?case
  proof (cases "insertCellElement g (createElement_td n) (r + fst p) (c + snd p)")
    case None
    then have "?st = None" by (simp add: splitStep_def)
    with run show ?thesis by (simp add: fold_splitStep_None)
  next
    case (Some res)
    show ?thesis
    proof (cases res)
      case (Inl e)
      with Some have "?st = Some (Inl e)" by (simp add: splitStep_def)
      with run show ?thesis by (simp add: fold_splitStep_Inl)
    next
      case (Inr g1)
      with Some have st: "?st = Some (Inr (g1, tds @ [n], Suc n))" by (simp add: splitStep_def)
      from Some Inr have "rows g1 = rows g" by (simp add: rows_insertCellElement)
      moreover have "map (\<lambda>k. n + k) [0..<Suc (length ps)] =
          n # map (\<lambda>k. Suc n + k) [0..<length ps]"
        by (simp add: map_upt_Suc del: upt_Suc)
      ultimately show ?thesis
        using Cons.IH [of g1 "tds @ [n]" "Suc n"] run st by simp
    qed
  qed
qed

lemma filter_origin_row:
  assumes "0 \<le> n" "0 \<le> (i::int)"
  shows "filter (\<lambda>p. \<not> (fst p > 0 \<or> snd p > 0)) (map (\<lambda>j. (i, j)) [0..n]) =
     (if i = 0 then [(0, 0)] else [])"
proof -
  have "[0..n] = 0 # [1..n]" using assms by (simp add: upto_rec1)
  moreover have "filter (\<lambda>j. \<not> (i > 0 \<or> j > 0)) [1..n] = []"
    by (auto simp: filter_empty_conv)
  ultimately show ?thesis
    using assms by (auto simp: filter_map comp_def)
qed

lemma length_rect: "0 \<le> m \<Longrightarrow> 0 \<le> n \<Longrightarrow>
  length (concat (map (\<lambda>i. map (\<lambda>j. (i, j)) [0..n]) [0..m])) = nat ((m + 1) * (n + 1))"
  by (simp add: length_concat comp_def sum_list_triv nat_mult_distrib nat_add_distrib)

lemma filter_origin:
  assumes "0 \<le> m" "0 \<le> n"
  shows "filter (\<lambda>p. \<not> (fst p > 0 \<or> snd p > 0))
           (concat (map (\<lambda>i. map (\<lambda>j. (i, j)) [0..n]) [0..m])) = [(0, 0)]"
proof -
  have m: "[0..m] = 0 # [1..m]" using assms by (simp add: upto_rec1)
  have rest: "concat (map (\<lambda>i. filter (\<lambda>p. \<not> (fst p > 0 \<or> snd p > 0))
      (map (\<lambda>j. (i, j)) [0..n])) [1..m]) = []"
    using assms by (simp add: filter_origin_row)
  have first: "filter (\<lambda>p. \<not> (fst p > 0 \<or> snd p > 0)) (map (\<lambda>j. (0::int, j)) [0..n]) = [(0, 0)]"
    using filter_origin_row [OF assms(2), of 0] by simp
  show ?thesis
    unfolding m using rest first by (simp add: filter_concat comp_def)
qed

lemma length_splitOffsets:
  assumes "1 \<le> rowSpan cell" "1 \<le> colSpan cell"
  shows "length (splitOffsets cell) = nat (rowSpan cell * colSpan cell) - 1"
proof -
  let ?xs = "concat (map (\<lambda>i. map (\<lambda>j. (i, j)) [0..colSpan cell - 1]) [0..rowSpan cell - 1])"
  let ?P = "\<lambda>p::int \<times> int. fst p > 0 \<or> snd p > 0"
  have "length (filter ?P ?xs) + length (filter (\<lambda>p. \<not> ?P p) ?xs) = length ?xs"
    by (rule sum_length_filter_compl)
  moreover have "length ?xs = nat (rowSpan cell * colSpan cell)"
    using assms length_rect [of "rowSpan cell - 1" "colSpan cell - 1"] by simp
  moreover have "filter (\<lambda>p. \<not> ?P p) ?xs = [(0, 0)]"
    using assms filter_origin [of "rowSpan cell - 1" "colSpan cell - 1"] by simp
  ultimately show ?thesis
    by (simp add: splitOffsets_def)
qed

lemma fold_max_start: "(a::nat) \<le> fold max xs a"
proof (induction xs arbitrary: a)
  case Nil
  then show ?case by simp
next
  case (Cons x xs)
  have "a \<le> max x a" by simp
  also have "\<dots> \<le> fold max xs (max x a)" by (rule Cons.IH)
  finally show ?case by simp
qed

lemma fold_max_ge: "x \<in> set xs \<Longrightarrow> x \<le> fold max xs (a::nat)"
proof (induction xs arbitrary: a)
  case Nil
  then show ?case by simp
next
  case (Cons y ys)
  show ?case
  proof (cases "x = y")
    case True
    have "x \<le> max y a" using True by simp
    also have "\<dots> \<le> fold max ys (max y a)" by (rule fold_max_start)
    finally show ?thesis by simp
  next
    case False
    with Cons show ?thesis by simp
  qed
qed

lemma attached_below_fresh:
  assumes "\<not> detached tbl r"
  shows "r < fresh_ref tbl"
proof -
  from assms obtain n where "lookup_node tbl r = Some n"
    by (auto simp: detached_def)
  then have "n \<in> set (all_nodes tbl)" "nid n = r"
    by (auto simp: lookup_node_def find_Some_iff)
  then have "r \<in> set (map nid (all_nodes tbl) @ map tr_nid (all_rows tbl))"
    by auto
  from fold_max_ge [OF this, of 0] show ?thesis
    by (simp add: fresh_ref_def)
qed

text \<open>
  Whenever \<open>splitCell\<close> returns for a cell with spans of at least 1, it returns the nodes
  it created, in the order of their creation: one less than \<open>rowSpan * colSpan\<close>
  nodes, all new, so the node of the cell itself is not among them.
\<close>

lemma splitCell_returns:
  assumes ret: "splitCell this r c = Some (Inr (newTds, g))"
    and cell: "cell_at (rows this) r c = Some cell"
    and spans: "1 \<le> rowSpan cell" "1 \<le> colSpan cell"
  shows "newTds = map (\<lambda>k. fresh_ref (table_element this) + k)
                    [0..<nat (rowSpan cell * colSpan cell) - 1] \<and>
         length newTds = nat (rowSpan cell * colSpan cell) - 1 \<and>
         (\<not> detached (table_element this) (element cell) \<longrightarrow> element cell \<notin> set newTds)"
proof -
  from ret cell obtain this1 n1 where
    run: "fold (splitStep r c) (splitOffsets cell)
            (Some (Inr (this, [], fresh_ref (table_element this)))) =
          Some (Inr (this1, newTds, n1))"
    by (auto simp: splitCell_def Let_def split: option.splits sum.splits list.splits)
  from fold_splitStep_Inr [OF run] length_splitOffsets [OF spans]
  have tds: "newTds = map (\<lambda>k. fresh_ref (table_element this) + k)
                    [0..<nat (rowSpan cell * colSpan cell) - 1]"
    by simp
  moreover have "element cell \<notin> set newTds" if "\<not> detached (table_element this) (element cell)"
    using attached_below_fresh [OF that] tds by auto
  ultimately show ?thesis by simp
qed

subsection \<open>Where the new nodes go\<close>

text \<open>
  On a table whose only columns are the two the cell covers, the split gives the four
  unit cells of the rectangle: the first new node takes the content and is at (0,0),
  the old node, now empty, is at (0,1), and the two other new nodes fill row 1.
\<close>

lemma splitCell_single:
  "(case splitCell (new_GoogTable table_single) 0 0 of
      Some (Inr (newTds, g)) \<Rightarrow>
        newTds = [103, 104, 105] \<and>
        layout g = [[Some 103, Some 1], [Some 104, Some 105]] \<and>
        list_all (\<lambda>c. colSpan c = 1 \<and> rowSpan c = 1) (grid_cells (rows g)) \<and>
        map (childNodes_of (table_element g)) [103, 1, 104, 105] =
          [[TextNode ''a''], [], [], []]
    | _ \<Rightarrow> False)"
  by code_simp

text \<open>
  C1, at the failing input. In \<open>table_merged\<close> the cell at (0,0) has two rows and two
  columns and row 1 has a cell of its own at column 2 (node 6). \<open>splitCell\<close> returns three
  new nodes, but the third one is appended after node 6: the slot (1,1) of the grid is
  then node 6 with its content, pushed one column to the left, and the new node is at
  (1,2), outside the rectangle of the cell that was split.
\<close>

theorem splitCell_merged_misplaces:
  "(case splitCell (new_GoogTable table_merged) 0 0 of
      Some (Inr (newTds, g)) \<Rightarrow>
        newTds = [104, 105, 106] \<and>
        layout g =
          [[Some 104, Some 1, Some 3], [Some 105, Some 6, Some 106],
           [Some 7, Some 8, Some 9]] \<and>
        childNodes_of (table_element g) 6 = [TextNode ''f'']
    | _ \<Rightarrow> False)"
  by code_simp

lemma splitCell_unit_cell:
  assumes "cell_at (rows this) r c = Some cell" and "rowSpan cell = 1" and "colSpan cell = 1"
  shows "splitCell this r c = Some (Inl TypeError)"
  using assms by (simp add: splitCell_def splitOffsets_def Let_def)

text \<open>
  C5, at the failing input. For a unit cell no node is created, \<^verbatim>\<open>newTds\<close> is empty
  and \<^verbatim>\<open>newTds[0].innerHTML = html\<close> throws: \<open>splitCell\<close> does not return the empty list.
\<close>

theorem splitCell_unit_cell_throws:
  "cell_at (rows (new_GoogTable table_3x3)) 0 0 =
     Some \<lparr>element = 1, colSpan = 1, rowSpan = 1, startRow = 0, startCol = 0,
           endCol = 0, endRow = 0\<rparr> \<and>
   splitCell (new_GoogTable table_3x3) 0 0 = Some (Inl TypeError)"
  by code_simp

end
